theory Spec2Isabelle
  imports
    Complex_Main
    "HOL-Library.Multiset"
    "HOL-Library.List_Lexorder"
    "HOL-Library.Char_ord"
    "HOL-Library.AList"
begin

section \<open>split\_mirror.py: packing packages into size-bounded chunks\<close>

text \<open>
  A package is a pair \<open>(package_path, package_size)\<close> of a \<open>str\<close> and a Python \<open>int\<close>.
  Strings are compared as Python compares them (lexicographically, character by
  character), which is the order of \<open>HOL-Library.List_Lexorder\<close> over \<open>Char_ord\<close>.
\<close>

text \<open>
  The inner loop of \<open>create_chunks\<close>:
  \<^verbatim>\<open>for i, chunk in enumerate(chunks):
      if chunk_sizes[i] + package_size <= max_size: ... break\<close>
  finds the first index whose recorded size leaves room. \<open>chunks\<close> and \<open>chunk_sizes\<close> always
  have the same length (lemma \<open>foldl_place_length\<close>), so \<open>chunk_sizes[i]\<close> is always in
  range and the scan over the indices of \<open>chunks\<close> is the scan over \<open>chunk_sizes\<close>.
\<close>

fun first_fit :: "int list \<Rightarrow> int \<Rightarrow> int \<Rightarrow> nat option" where
  "first_fit [] package_size max_size = None"
| "first_fit (z # zs) package_size max_size =
     (if z + package_size \<le> max_size then Some 0
      else map_option Suc (first_fit zs package_size max_size))"

text \<open>
  One iteration of the outer loop over \<open>sorted_packages\<close>, on the state
  \<open>(chunks, chunk_sizes)\<close>: an oversized package gets a chunk of its own; otherwise the
  package is appended to the first chunk that fits, or to a new chunk when none does.
\<close>

definition place ::
  "int \<Rightarrow> string list list \<times> int list \<Rightarrow> string \<times> int \<Rightarrow> string list list \<times> int list" where
  "place max_size st pkg =
     (case st of (chunks, chunk_sizes) \<Rightarrow>
      case pkg of (package_path, package_size) \<Rightarrow>
        if package_size > max_size
        then (chunks @ [[package_path]], chunk_sizes @ [package_size])
        else (case first_fit chunk_sizes package_size max_size of
                Some i \<Rightarrow> (chunks[i := chunks ! i @ [package_path]],
                           chunk_sizes[i := chunk_sizes ! i + package_size])
              | None \<Rightarrow> (chunks @ [[package_path]], chunk_sizes @ [package_size])))"

text \<open>
  \<^verbatim>\<open>sorted(packages, key=lambda x: x[1], reverse=True)\<close>: a stable sort by descending
  size (with \<open>reverse=True\<close> Python keeps elements of equal key in their original
  order), that is a stable ascending sort by the negated size.
\<close>

definition sorted_packages :: "(string \<times> int) list \<Rightarrow> (string \<times> int) list" where
  "sorted_packages packages = sort_key (\<lambda>x. - snd x) packages"

definition create_chunks :: "(string \<times> int) list \<Rightarrow> int \<Rightarrow> string list list" where
  "create_chunks packages max_size =
     map sort (fst (foldl (place max_size) ([], []) (sorted_packages packages)))"

text \<open>The maximum that \<open>main\<close> passes to \<open>create_chunks\<close> ("1.9GB to be safe").\<close>

definition MAX_CHUNK_SIZE :: int where
  "MAX_CHUNK_SIZE = 2 * 1024 * 1024 * 1024 - 100 * 1024 * 1024"

text \<open>
  \<open>create_packages_tar_gz\<close> adds every listed package whose directory exists, whole
  (\<open>tar.add\<close> recurses), under the archive name \<open>mirror/packages/<package>\<close>. The archive
  is modelled by the list of archive names added; \<open>package_exists\<close> stands for
  \<open>package_path.exists()\<close>.
\<close>

definition create_packages_tar_gz :: "(string \<Rightarrow> bool) \<Rightarrow> string list \<Rightarrow> string list" where
  "create_packages_tar_gz package_exists packages =
     map (\<lambda>package. ''mirror/packages/'' @ package) (filter package_exists packages)"

text \<open>
  The size of a package as the input list gives it, and the total size of a chunk (a
  list of package paths).
\<close>

definition size_of :: "(string \<times> int) list \<Rightarrow> string \<Rightarrow> int" where
  "size_of packages p = (case map_of packages p of Some s \<Rightarrow> s | None \<Rightarrow> 0)"

definition chunk_total :: "(string \<times> int) list \<Rightarrow> string list \<Rightarrow> int" where
  "chunk_total packages chunk = sum_list (map (size_of packages) chunk)"

text \<open>
  Invariants of the loop, used in the proofs below. \<open>chunk_ok\<close>: the recorded size of a
  chunk is the sum of the sizes of its packages, and it is within \<open>max_size\<close> unless
  the chunk is a single oversized package. \<open>own_chunk\<close>: some chunk is exactly \<open>[p]\<close>
  and its recorded size exceeds \<open>max_size\<close>.
\<close>

definition chunk_ok :: "(string \<Rightarrow> int) \<Rightarrow> int \<Rightarrow> string list \<times> int \<Rightarrow> bool" where
  "chunk_ok sz m cz = (case cz of (c, z) \<Rightarrow>
      z = sum_list (map sz c) \<and> (z \<le> m \<or> (\<exists>p. c = [p] \<and> m < sz p)))"

definition own_chunk :: "int \<Rightarrow> string \<Rightarrow> string list list \<times> int list \<Rightarrow> bool" where
  "own_chunk m p st = (\<exists>i < length (fst st). fst st ! i = [p] \<and> m < snd st ! i)"

section \<open>backfill\_docs.py: fetching missing docs.json files\<close>

subsection \<open>The mirror directory\<close>

text \<open>
  A path is the list of its components below \<open>mirror_dir\<close>. The mirror is a finite
  table from paths to entries, read with \<open>map_of\<close>; the order of the table is the order
  in which \<open>iterdir\<close> lists a directory (the source does not sort it).
\<close>

type_synonym path = "string list"

datatype entry = File string | Dir

type_synonym filesystem = "(path \<times> entry) list"

definition path_exists :: "filesystem \<Rightarrow> path \<Rightarrow> bool" where
  "path_exists fs p = (map_of fs p \<noteq> None)"

definition is_dir :: "filesystem \<Rightarrow> path \<Rightarrow> bool" where
  "is_dir fs p = (map_of fs p = Some Dir)"

definition iterdir :: "filesystem \<Rightarrow> path \<Rightarrow> path list" where
  "iterdir fs p = filter (\<lambda>q. q \<noteq> [] \<and> butlast q = p) (map fst fs)"

definition packages_dir :: path where
  "packages_dir = [''packages'']"

subsection \<open>Selecting the versions to update\<close>

text \<open>
  The dictionary appended to \<open>packages_to_update\<close>, and the three nested loops that
  fill the list: \<open>author_dir.name\<close> is the last component of the path.
\<close>

record pkg =
  author :: string
  name :: string
  version :: string
  docs_path :: path

definition packages_to_update :: "filesystem \<Rightarrow> pkg list" where
  "packages_to_update fs =
     [\<lparr>author = last author_dir, name = last name_dir, version = last version_dir,
       docs_path = version_dir @ [''docs.json'']\<rparr>.
        author_dir \<leftarrow> iterdir fs packages_dir, is_dir fs author_dir,
        name_dir \<leftarrow> iterdir fs author_dir, is_dir fs name_dir,
        version_dir \<leftarrow> iterdir fs name_dir, is_dir fs version_dir,
        path_exists fs (version_dir @ [''elm.json'']) \<and>
        \<not> path_exists fs (version_dir @ [''docs.json''])]"

subsection \<open>The outside world\<close>

text \<open>
  What the package server answers to the request for one version: the document (as the
  text \<open>json.dump\<close> writes for it), an \<open>HTTPError\<close> with its code and reason, or any
  other exception (a timeout, a connection error, a body that is not JSON).
\<close>

datatype fetch_result = Docs string | HTTPError nat string | OtherError string

type_synonym upstream = "string \<times> string \<times> string \<Rightarrow> fetch_result"

definition fetch_docs_json :: "upstream \<Rightarrow> string \<Rightarrow> string \<Rightarrow> string \<Rightarrow> fetch_result" where
  "fetch_docs_json up a n v = up (a, n, v)"

text \<open>
  What the disk does with the write of one file: it succeeds; \<open>open\<close> raises; or
  \<open>json.dump\<close> (or the closing of the file) raises after \<open>n\<close> characters have reached
  the file.
\<close>

datatype write_result = Written | OpenFailed | WriteFailed nat

type_synonym disk = "path \<Rightarrow> write_result"

subsection \<open>Writing docs.json\<close>

text \<open>
  \<^verbatim>\<open>with open(pkg["docs_path"], "w", encoding="utf-8") as f: json.dump(docs, f)\<close>
  \<open>open\<close> in mode \<open>"w"\<close> creates the file at the path it is given, or truncates it;
  \<open>json.dump\<close> then fills that same file. The boolean tells whether the statement
  completed without an exception.
\<close>

definition open_w :: "filesystem \<Rightarrow> path \<Rightarrow> filesystem" where
  "open_w fs p = AList.update p (File []) fs"

definition json_dump :: "filesystem \<Rightarrow> path \<Rightarrow> string \<Rightarrow> filesystem" where
  "json_dump fs p written = AList.update p (File written) fs"

definition write_docs :: "disk \<Rightarrow> filesystem \<Rightarrow> path \<Rightarrow> string \<Rightarrow> filesystem \<times> bool" where
  "write_docs dsk fs p docs =
     (case dsk p of
        OpenFailed \<Rightarrow> (fs, False)
      | WriteFailed n \<Rightarrow> (json_dump (open_w fs p) p (take n docs), False)
      | Written \<Rightarrow> (json_dump (open_w fs p) p docs, True))"

subsection \<open>The delay between requests\<close>

text \<open>
  A Python \<open>float\<close> is an IEEE 754 double. \<open>to_double x\<close> is the double nearest to a
  positive real \<open>x\<close> below \<open>2^1024\<close>: a multiple of the spacing \<open>2^(e - 52)\<close> of the
  doubles around \<open>x\<close>, where \<open>2^e \<le> x < 2^(e + 1)\<close> (and \<open>e\<close> is no less than \<open>-1022\<close>:
  below, the spacing stays \<open>2^-1074\<close>), a tie going to the even multiple.
\<close>

definition round_half_even :: "real \<Rightarrow> int" where
  "round_half_even y =
     (let f = \<lfloor>y\<rfloor>; r = y - of_int f in
      if r < 1 / 2 then f else if 1 / 2 < r then f + 1 else if even f then f else f + 1)"

definition to_double :: "real \<Rightarrow> real" where
  "to_double x =
     (let e = max \<lfloor>log 2 x\<rfloor> (- 1022); ulp = 2 powr (of_int e - 52)
      in of_int (round_half_even (x / ulp)) * ulp)"

datatype py_error = OverflowError | NotADirectoryError

text \<open>
  \<^verbatim>\<open>delay = 3600.0 / args.rate_limit if args.rate_limit > 0 else 0\<close>
  The division converts the \<open>int\<close> to the nearest double and raises \<open>OverflowError\<close>
  ("int too large to convert to float") when that is \<open>2^1024\<close> or more, which is the
  case from \<open>2^1024 - 2^970\<close> on; the quotient of the two doubles is then rounded to the
  nearest double.
\<close>

definition compute_delay :: "int \<Rightarrow> py_error + real" where
  "compute_delay rate_limit =
     (if rate_limit > 0
      then (if 2 ^ 1024 - 2 ^ 970 \<le> rate_limit then Inl OverflowError
            else Inr (to_double (3600 / to_double (real_of_int rate_limit))))
      else Inr 0)"

subsection \<open>The main loop\<close>

text \<open>
  The effects of a run besides the files: the requests sent and the calls of
  \<open>time.sleep\<close> with their argument, in order.
\<close>

datatype event = Fetch string string string | Sleep real

record run_state =
  files :: filesystem
  success_count :: nat
  fail_count :: nat
  trace :: "event list"

text \<open>
  One iteration of \<open>for i, pkg in enumerate(packages_to_update, 1)\<close>; \<open>n_packages\<close> is
  \<open>len(packages_to_update)\<close>. Both \<open>except\<close> clauses count a failure and fall through to
  the rate limiting.
\<close>

definition process ::
  "upstream \<Rightarrow> disk \<Rightarrow> real \<Rightarrow> nat \<Rightarrow> run_state \<Rightarrow> nat \<times> pkg \<Rightarrow> run_state" where
  "process up dsk delay n_packages st ip =
     (case ip of (i, pkg) \<Rightarrow>
        let st1 = st\<lparr>trace := trace st @ [Fetch (author pkg) (name pkg) (version pkg)]\<rparr>;
            st2 = (case fetch_docs_json up (author pkg) (name pkg) (version pkg) of
                     Docs docs \<Rightarrow>
                       (case write_docs dsk (files st1) (docs_path pkg) docs of
                          (fs', True) \<Rightarrow>
                            st1\<lparr>files := fs', success_count := success_count st1 + 1\<rparr>
                        | (fs', False) \<Rightarrow>
                            st1\<lparr>files := fs', fail_count := fail_count st1 + 1\<rparr>)
                   | HTTPError code reason \<Rightarrow> st1\<lparr>fail_count := fail_count st1 + 1\<rparr>
                   | OtherError e \<Rightarrow> st1\<lparr>fail_count := fail_count st1 + 1\<rparr>)
        in if delay > 0 \<and> i < n_packages then st2\<lparr>trace := trace st2 @ [Sleep delay]\<rparr>
           else st2)"

text \<open>
  \<open>exit(main())\<close>: the value returned, or the exception that leaves \<open>main\<close>. After the
  test that \<open>packages\<close> exists, the delay is computed, which may raise; then
  \<open>packages_dir.iterdir()\<close> raises \<open>NotADirectoryError\<close> when \<open>packages\<close> is not a
  directory; every other \<open>iterdir\<close> is guarded by \<open>is_dir\<close>. The mirror is a table of
  files and directories: it has no links and no permissions, so every directory in it
  can be listed.
\<close>

datatype outcome = Return int | Uncaught py_error

definition main :: "upstream \<Rightarrow> disk \<Rightarrow> int \<Rightarrow> filesystem \<Rightarrow> outcome \<times> run_state" where
  "main up dsk rate_limit fs =
     (let st0 = \<lparr>files = fs, success_count = 0, fail_count = 0, trace = []\<rparr> in
      if \<not> path_exists fs packages_dir then (Return 1, st0)
      else case compute_delay rate_limit of
        Inl err \<Rightarrow> (Uncaught err, st0)
      | Inr delay \<Rightarrow>
          if \<not> is_dir fs packages_dir then (Uncaught NotADirectoryError, st0)
          else
            let pkgs = packages_to_update fs
            in if pkgs = [] then (Return 0, st0)
               else
                 let st = foldl (process up dsk delay (length pkgs)) st0 (enumerate 1 pkgs)
                 in (Return (if fail_count st = 0 then 0 else 1), st))"

subsection \<open>Notions used to state the claims\<close>

text \<open>
  A version needs docs when its author, package and version directories exist and the
  version directory contains \<open>elm.json\<close> and no \<open>docs.json\<close>.
\<close>

definition needs_docs :: "filesystem \<Rightarrow> string \<Rightarrow> string \<Rightarrow> string \<Rightarrow> bool" where
  "needs_docs fs a n v =
     (is_dir fs [''packages'', a] \<and> is_dir fs [''packages'', a, n] \<and>
      is_dir fs [''packages'', a, n, v] \<and>
      path_exists fs [''packages'', a, n, v, ''elm.json''] \<and>
      \<not> path_exists fs [''packages'', a, n, v, ''docs.json''])"

definition mk_pkg :: "string \<Rightarrow> string \<Rightarrow> string \<Rightarrow> pkg" where
  "mk_pkg a n v =
     \<lparr>author = a, name = n, version = v, docs_path = [''packages'', a, n, v, ''docs.json'']\<rparr>"


definition fetch_of :: "pkg \<Rightarrow> event" where
  "fetch_of pkg = Fetch (author pkg) (name pkg) (version pkg)"

fun fetched :: "event list \<Rightarrow> (string \<times> string \<times> string) list" where
  "fetched [] = []"
| "fetched (Fetch a n v # es) = (a, n, v) # fetched es"
| "fetched (Sleep d # es) = fetched es"

fun sleeps :: "event list \<Rightarrow> real list" where
  "sleeps [] = []"
| "sleeps (Fetch a n v # es) = sleeps es"
| "sleeps (Sleep d # es) = d # sleeps es"

text \<open>A separator between every two consecutive elements, and none after the last.\<close>

fun intersperse :: "'a \<Rightarrow> 'a list \<Rightarrow> 'a list" where
  "intersperse sep [] = []"
| "intersperse sep [x] = [x]"
| "intersperse sep (x # y # ys) = x # sep # intersperse sep (y # ys)"

text \<open>
  The delay of a rate limit for which the division does not raise, and the events of
  one iteration of the loop: the request, then the sleep unless the delay is zero or
  the package is the last.
\<close>

definition double_delay :: "int \<Rightarrow> real" where
  "double_delay rate_limit =
     (if rate_limit > 0 then to_double (3600 / to_double (real_of_int rate_limit)) else 0)"

definition step_events :: "real \<Rightarrow> nat \<Rightarrow> nat \<times> pkg \<Rightarrow> event list" where
  "step_events delay n_packages ip =
     fetch_of (snd ip) # (if delay > 0 \<and> fst ip < n_packages then [Sleep delay] else [])"

subsection \<open>Example mirrors\<close>

text \<open>
  A mirror with three versions: \<open>elm/core 1.0.4\<close> already has its docs, \<open>elm/core 1.0.5\<close>
  and \<open>elm/json 1.1.3\<close> do not. Upstream has no docs for \<open>elm/core 1.0.5\<close>. The second
  mirror holds the single version \<open>elm/core 1.0.5\<close>, without docs.
\<close>

definition example_mirror :: filesystem where
  "example_mirror =
     [([''registry.json''], File ''{}''),
      ([''packages''], Dir),
      ([''packages'', ''elm''], Dir),
      ([''packages'', ''elm'', ''core''], Dir),
      ([''packages'', ''elm'', ''core'', ''1.0.4''], Dir),
      ([''packages'', ''elm'', ''core'', ''1.0.4'', ''elm.json''], File ''{}''),
      ([''packages'', ''elm'', ''core'', ''1.0.4'', ''docs.json''], File ''[]''),
      ([''packages'', ''elm'', ''core'', ''1.0.5''], Dir),
      ([''packages'', ''elm'', ''core'', ''1.0.5'', ''elm.json''], File ''{}''),
      ([''packages'', ''elm'', ''json''], Dir),
      ([''packages'', ''elm'', ''json'', ''1.1.3''], Dir),
      ([''packages'', ''elm'', ''json'', ''1.1.3'', ''elm.json''], File ''{}'')]"

definition example_upstream :: upstream where
  "example_upstream ident =
     (if ident = (''elm'', ''core'', ''1.0.5'') then HTTPError 404 ''Not Found''
      else Docs ''[1, 2]'')"

definition single_mirror :: filesystem where
  "single_mirror =
     [([''packages''], Dir),
      ([''packages'', ''elm''], Dir),
      ([''packages'', ''elm'', ''core''], Dir),
      ([''packages'', ''elm'', ''core'', ''1.0.5''], Dir),
      ([''packages'', ''elm'', ''core'', ''1.0.5'', ''elm.json''], File ''{}'')]"

section \<open>The mirror server\<close>

text \<open>
  Modelled from the spec: the mirror server (the \<open>serve\<close> command of \<open>elm_mirror.py\<close>) is
  not among the sources; only its integration test is. The sync log, the stored
  artifacts and the handling of a request that names an identity follow sections 3 and
  4.5 of the specification; the archive path is the one the integration test expects.
\<close>

type_synonym identity = "string \<times> string \<times> string"

datatype status = Pending | Success | Failed

record PackageRecord =
  identity :: identity
  status :: status
  error_detail :: "string option"

type_synonym registry = "PackageRecord list"

text \<open>
  Modelled from the spec: the artifacts of a package directory (manifest, integrity
  record holding the digest, archive, optional docs), absent or present with their
  content.
\<close>

datatype artifact = Manifest | Integrity | Archive | ApiDocs

type_synonym store = "identity \<Rightarrow> artifact \<Rightarrow> string option"

datatype resource = ManifestFile | DocsJson | PackageZip | EndpointJson

datatype body = NoBody | Raw string | Endpoint string string

record response =
  code :: nat
  body :: body

text \<open>
  Modelled from the spec: an identity is available when the log holds a success record
  for it.
\<close>

definition has_success :: "registry \<Rightarrow> identity \<Rightarrow> bool" where
  "has_success reg ident = (\<exists>r \<in> set reg. identity r = ident \<and> status r = Success)"

text \<open>
  Modelled from the spec: the canonical archive path of an identity,
  \<open>/packages/<author>/<name>/<version>/package.zip\<close>.
\<close>

definition canonical_path :: "identity \<Rightarrow> string" where
  "canonical_path ident =
     (case ident of (a, n, v) \<Rightarrow> ''/packages/'' @ a @ ''/'' @ n @ ''/'' @ v @ ''/package.zip'')"

text \<open>
  Modelled from the spec: a stored sub-resource is served raw with 200; a missing one is
  a 404.
\<close>

definition raw_or_404 :: "string option \<Rightarrow> response" where
  "raw_or_404 content =
     (case content of
        None \<Rightarrow> \<lparr>code = 404, body = NoBody\<rparr>
      | Some bytes \<Rightarrow> \<lparr>code = 200, body = Raw bytes\<rparr>)"

text \<open>
  Modelled from the spec: the answer to \<open>GET /packages/<a>/<n>/<v>/<resource>\<close>. The
  availability rule comes first (503 for an identity with no success record); then the
  table of section 4.5, with 404 for a sub-resource that is missing.
\<close>

definition serve :: "string \<Rightarrow> registry \<Rightarrow> store \<Rightarrow> identity \<Rightarrow> resource \<Rightarrow> response" where
  "serve base_url reg st ident res =
     (if \<not> has_success reg ident then \<lparr>code = 503, body = NoBody\<rparr>
      else case res of
        ManifestFile \<Rightarrow> raw_or_404 (st ident Manifest)
      | DocsJson \<Rightarrow> raw_or_404 (st ident ApiDocs)
      | PackageZip \<Rightarrow> raw_or_404 (st ident Archive)
      | EndpointJson \<Rightarrow>
          (case st ident Integrity of
             None \<Rightarrow> \<lparr>code = 404, body = NoBody\<rparr>
           | Some digest \<Rightarrow>
               \<lparr>code = 200, body = Endpoint (base_url @ canonical_path ident) digest\<rparr>))"

section \<open>Proofs about \<open>create_chunks\<close>\<close>

subsection \<open>The two parallel lists stay aligned\<close>

lemma first_fit_Some:
  "first_fit zs s m = Some i \<Longrightarrow> i < length zs \<and> zs ! i + s \<le> m"
  by (induction zs arbitrary: i) (auto split: if_splits)

lemma place_length:
  assumes "length (fst st) = length (snd st)"
  shows "length (fst (place m st pkg)) = length (snd (place m st pkg))"
  using assms by (cases st; cases pkg) (auto simp: place_def split: option.splits)

lemma foldl_place_length:
  "length (fst st) = length (snd st) \<Longrightarrow>
   length (fst (foldl (place m) st xs)) = length (snd (foldl (place m) st xs))"
  by (induction xs arbitrary: st) (simp_all add: place_length)

subsection \<open>Every package lands in exactly one chunk\<close>

lemma mset_concat_update:
  "i < length xss \<Longrightarrow>
   mset (concat (xss[i := xss ! i @ [p]])) = add_mset p (mset (concat xss))"
  by (induction xss arbitrary: i) (auto split: nat.splits)

lemma place_mset:
  assumes "length (fst st) = length (snd st)"
  shows "mset (concat (fst (place m st pkg))) = add_mset (fst pkg) (mset (concat (fst st)))"
proof (cases st; cases pkg)
  fix chunks sizes p s
  assume st: "st = (chunks, sizes)" and pkg: "pkg = (p, s)"
  show ?thesis
  proof (cases "first_fit sizes s m")
    case None
    then show ?thesis by (simp add: place_def st pkg)
  next
    case (Some i)
    then have "i < length chunks" using first_fit_Some[OF Some] assms st by simp
    then show ?thesis using Some by (simp add: place_def st pkg mset_concat_update)
  qed
qed

lemma foldl_place_mset:
  "length (fst st) = length (snd st) \<Longrightarrow>
   mset (concat (fst (foldl (place m) st xs))) = mset (map fst xs) + mset (concat (fst st))"
proof (induction xs arbitrary: st)
  case Nil
  then show ?case by simp
next
  case (Cons x xs)
  have "length (fst (place m st x)) = length (snd (place m st x))"
    by (rule place_length[OF Cons.prems])
  from Cons.IH[OF this] show ?case
    by (simp add: place_mset[OF Cons.prems])
qed

lemma mset_concat_map_sort: "mset (concat (map sort xss)) = mset (concat xss)"
  by (induction xss) simp_all

lemma mset_sorted_packages: "mset (sorted_packages packages) = mset packages"
  by (simp add: sorted_packages_def)

lemma set_sorted_packages: "set (sorted_packages packages) = set packages"
  by (simp add: sorted_packages_def)

lemma create_chunks_mset:
  "mset (concat (create_chunks packages m)) = mset (map fst packages)"
  unfolding create_chunks_def
  by (simp add: mset_concat_map_sort foldl_place_mset mset_sorted_packages)

lemma create_chunks_distinct:
  "distinct (map fst packages) \<Longrightarrow> distinct (concat (create_chunks packages m))"
  by (metis create_chunks_mset mset_eq_imp_distinct_iff)

lemma distinct_concat_index:
  assumes "distinct (concat xss)" "i < length xss" "j < length xss"
    "x \<in> set (xss ! i)" "x \<in> set (xss ! j)"
  shows "i = j"
  using assms
proof (induction xss arbitrary: i j)
  case Nil
  then show ?case by simp
next
  case (Cons xs xss)
  show ?case
  proof (cases i; cases j)
    fix i' j' assume "i = Suc i'" "j = Suc j'"
    with Cons show ?thesis by auto
  next
    fix j' assume "i = 0" "j = Suc j'"
    with Cons.prems have "x \<in> set xs" "x \<in> set (concat xss)" by auto
    with Cons.prems(1) show ?thesis by auto
  next
    fix i' assume "i = Suc i'" "j = 0"
    with Cons.prems have "x \<in> set xs" "x \<in> set (concat xss)" by auto
    with Cons.prems(1) show ?thesis by auto
  qed simp
qed

lemma create_chunks_unique:
  assumes "distinct (map fst packages)" "p \<in> fst ` set packages"
  shows "\<exists>!i. i < length (create_chunks packages m) \<and> p \<in> set (create_chunks packages m ! i)"
proof -
  let ?cs = "create_chunks packages m"
  have "p \<in> set (concat ?cs)"
    using assms(2) create_chunks_mset[of packages m] by (metis mset_eq_setD set_map)
  then obtain c where "c \<in> set ?cs" "p \<in> set c" by auto
  then obtain i where i: "i < length ?cs" "p \<in> set (?cs ! i)"
    by (metis in_set_conv_nth)
  have "\<And>j. j < length ?cs \<Longrightarrow> p \<in> set (?cs ! j) \<Longrightarrow> j = i"
    using distinct_concat_index[OF create_chunks_distinct[OF assms(1)]] i by blast
  with i show ?thesis by blast
qed

lemma concat_map_tar:
  "concat (map (create_packages_tar_gz ex) xss) = create_packages_tar_gz ex (concat xss)"
  by (induction xss) (simp_all add: create_packages_tar_gz_def)

lemma create_packages_tar_gz_distinct:
  "distinct packages \<Longrightarrow> distinct (create_packages_tar_gz ex packages)"
  by (simp add: create_packages_tar_gz_def distinct_map inj_on_def)

text \<open>
  Claim C3. For every input list, the package paths of all chunks together are exactly
  the package paths of the input, with the same multiplicities: none is dropped and
  none is added. When the input names each package once (as a directory listing does),
  each package is in exactly one chunk, and no archive name is added to two of the
  archives written from the chunks (or twice to one), so no package directory is split
  across two bundles.
\<close>

theorem create_chunks_partition:
  "mset (concat (create_chunks packages max_size)) = mset (map fst packages) \<and>
   (distinct (map fst packages) \<longrightarrow>
      (\<forall>p \<in> fst ` set packages.
          \<exists>!i. i < length (create_chunks packages max_size) \<and>
               p \<in> set (create_chunks packages max_size ! i)) \<and>
      distinct (concat (map (create_packages_tar_gz package_exists)
                            (create_chunks packages max_size))))"
  using create_chunks_mset create_chunks_unique create_chunks_distinct
  by (simp add: concat_map_tar create_packages_tar_gz_distinct)

theorem create_chunks_partition_witness:
  "distinct (map fst [(''elm/core'', 12::int), (''b/x'', 9), (''a/z'', 5), (''a/y'', 3)]) \<and>
   mset (concat (create_chunks [(''elm/core'', 12), (''b/x'', 9), (''a/z'', 5), (''a/y'', 3)] 19))
     = {#''elm/core'', ''b/x'', ''a/z'', ''a/y''#} \<and>
   (\<exists>!i. i < length (create_chunks [(''elm/core'', 12), (''b/x'', 9), (''a/z'', 5), (''a/y'', 3)] 19) \<and>
         ''a/z'' \<in> set (create_chunks [(''elm/core'', 12), (''b/x'', 9), (''a/z'', 5), (''a/y'', 3)] 19 ! i)) \<and>
   distinct (concat (map (create_packages_tar_gz (\<lambda>_. True))
      (create_chunks [(''elm/core'', 12), (''b/x'', 9), (''a/z'', 5), (''a/y'', 3)] 19)))"
  using create_chunks_partition
    [of "[(''elm/core'', 12), (''b/x'', 9), (''a/z'', 5), (''a/y'', 3)]" 19 "\<lambda>_. True"]
  by simp

subsection \<open>Chunk sizes\<close>

lemma place_ok:
  assumes len: "length chunks = length sizes"
    and ok: "\<forall>cz \<in> set (zip chunks sizes). chunk_ok sz m cz"
    and s: "sz p = s"
  shows "\<forall>cz \<in> set (zip (fst (place m (chunks, sizes) (p, s))) (snd (place m (chunks, sizes) (p, s)))). chunk_ok sz m cz"
proof (cases "s > m")
  case True
  then show ?thesis using len ok s by (auto simp: place_def chunk_ok_def)
next
  case False
  show ?thesis
  proof (cases "first_fit sizes s m")
    case None
    then show ?thesis using len ok s False by (auto simp: place_def chunk_ok_def)
  next
    case (Some i)
    from first_fit_Some[OF Some] have i: "i < length sizes" "sizes ! i + s \<le> m" by auto
    have "(chunks ! i, sizes ! i) \<in> set (zip chunks sizes)"
      using i len by (metis in_set_zip fst_conv snd_conv)
    then have old: "sizes ! i = sum_list (map sz (chunks ! i))"
      using ok by (auto simp: chunk_ok_def)
    have new: "chunk_ok sz m (chunks ! i @ [p], sizes ! i + s)"
      using old i s by (simp add: chunk_ok_def)
    have "set ((zip chunks sizes)[i := (chunks ! i @ [p], sizes ! i + s)])
            \<subseteq> insert (chunks ! i @ [p], sizes ! i + s) (set (zip chunks sizes))"
      by (rule set_update_subset_insert)
    then show ?thesis using Some False ok new
      by (auto simp: place_def zip_update)
  qed
qed

lemma foldl_place_ok:
  assumes "length (fst st) = length (snd st)"
    and "\<forall>cz \<in> set (zip (fst st) (snd st)). chunk_ok sz m cz"
    and "\<forall>(p, s) \<in> set xs. sz p = s"
  shows "\<forall>cz \<in> set (zip (fst (foldl (place m) st xs)) (snd (foldl (place m) st xs))). chunk_ok sz m cz"
  using assms
proof (induction xs arbitrary: st)
  case Nil
  then show ?case by simp
next
  case (Cons x xs)
  obtain chunks sizes where st: "st = (chunks, sizes)" by (cases st)
  obtain p s where x: "x = (p, s)" by (cases x)
  have 1: "length (fst (place m st x)) = length (snd (place m st x))"
    by (rule place_length[OF Cons.prems(1)])
  have 2: "\<forall>cz \<in> set (zip (fst (place m st x)) (snd (place m st x))). chunk_ok sz m cz"
    unfolding st x using Cons.prems by (intro place_ok) (auto simp: st x)
  have 3: "\<forall>(p, s) \<in> set xs. sz p = s" using Cons.prems(3) by simp
  show ?case using Cons.IH[OF 1 2 3] by simp
qed

lemma size_of_distinct:
  "distinct (map fst packages) \<Longrightarrow> (p, s) \<in> set packages \<Longrightarrow> size_of packages p = s"
  by (simp add: size_of_def)

lemma sum_list_map_sort: "sum_list (map f (sort xs)) = sum_list (map (f :: string \<Rightarrow> int) xs)"
proof -
  have "sum_mset (image_mset f (mset (sort xs))) = sum_mset (image_mset f (mset xs))" by simp
  then show ?thesis by (metis mset_map sum_mset_sum_list)
qed

lemma create_chunks_chunk_bound:
  assumes "distinct (map fst packages)" "c \<in> set (create_chunks packages m)"
  shows "chunk_total packages c \<le> m \<or> (\<exists>p. c = [p] \<and> m < size_of packages p)"
proof -
  let ?st = "foldl (place m) ([], []) (sorted_packages packages)"
  have len: "length (fst ?st) = length (snd ?st)" by (rule foldl_place_length) simp
  have ok: "\<forall>cz \<in> set (zip (fst ?st) (snd ?st)). chunk_ok (size_of packages) m cz"
    by (rule foldl_place_ok) (auto simp: set_sorted_packages size_of_distinct[OF assms(1)])
  from assms(2) obtain c0 where c0: "c0 \<in> set (fst ?st)" "c = sort c0"
    by (auto simp: create_chunks_def)
  then obtain i where i: "i < length (fst ?st)" "c0 = fst ?st ! i" by (metis in_set_conv_nth)
  then have "(c0, snd ?st ! i) \<in> set (zip (fst ?st) (snd ?st))"
    using len by (metis in_set_zip fst_conv snd_conv)
  with ok have "chunk_ok (size_of packages) m (c0, snd ?st ! i)" by blast
  then have "sum_list (map (size_of packages) c0) \<le> m \<or> (\<exists>p. c0 = [p] \<and> m < size_of packages p)"
    by (auto simp: chunk_ok_def)
  then show ?thesis
    unfolding chunk_total_def c0(2) by (auto simp: sum_list_map_sort)
qed

subsection \<open>Oversized packages\<close>

lemma place_makes_own:
  assumes "length (fst st) = length (snd st)" "m < s"
  shows "own_chunk m p (place m st (p, s))"
proof -
  obtain chunks sizes where st: "st = (chunks, sizes)" by (cases st)
  have "place m st (p, s) = (chunks @ [[p]], sizes @ [s])"
    using assms(2) by (simp add: place_def st)
  moreover have "(chunks @ [[p]]) ! length chunks = [p]" by simp
  moreover have "(sizes @ [s]) ! length chunks = s" using assms(1) by (simp add: st)
  ultimately show ?thesis
    unfolding own_chunk_def using assms(2)
    by (intro exI[of _ "length chunks"]) simp
qed

lemma place_keeps_own:
  assumes len: "length (fst st) = length (snd st)" and s: "0 \<le> s"
    and own: "own_chunk m p st"
  shows "own_chunk m p (place m st (q, s))"
proof -
  obtain chunks sizes where st: "st = (chunks, sizes)" by (cases st)
  from own obtain i where i: "i < length chunks" "chunks ! i = [p]" "m < sizes ! i"
    by (auto simp: own_chunk_def st)
  have appended: "own_chunk m p (chunks @ [[q]], sizes @ [s])"
  proof -
    have "(chunks @ [[q]]) ! i = [p]" "m < (sizes @ [s]) ! i"
      using i len by (simp_all add: nth_append st)
    then show ?thesis
      unfolding own_chunk_def using i(1) by (intro exI[of _ i]) simp
  qed
  show ?thesis
  proof (cases "m < s")
    case True
    then show ?thesis using appended by (simp add: place_def st)
  next
    case False
    show ?thesis
    proof (cases "first_fit sizes s m")
      case None
      then show ?thesis using appended False by (simp add: place_def st)
    next
      case (Some j)
      from first_fit_Some[OF Some] have j: "j < length sizes" "sizes ! j + s \<le> m" by auto
      with s i have ji: "j \<noteq> i" by auto
      have eq: "place m st (q, s) = (chunks[j := chunks ! j @ [q]], sizes[j := sizes ! j + s])"
        using False Some by (simp add: place_def st)
      have "(chunks[j := chunks ! j @ [q]]) ! i = [p]" "m < (sizes[j := sizes ! j + s]) ! i"
        using i ji by simp_all
      then show ?thesis
        unfolding own_chunk_def eq using i(1) by (intro exI[of _ i]) simp
    qed
  qed
qed

lemma foldl_keeps_own:
  assumes "length (fst st) = length (snd st)" "\<forall>(q, s) \<in> set xs. 0 \<le> s" "own_chunk m p st"
  shows "own_chunk m p (foldl (place m) st xs)"
  using assms
proof (induction xs arbitrary: st)
  case Nil
  then show ?case by simp
next
  case (Cons x xs)
  obtain q s where x: "x = (q, s)" by (cases x)
  have "own_chunk m p (place m st x)"
    unfolding x using Cons.prems by (intro place_keeps_own) (auto simp: x)
  moreover have "length (fst (place m st x)) = length (snd (place m st x))"
    by (rule place_length[OF Cons.prems(1)])
  ultimately show ?case using Cons.IH Cons.prems(2) by simp
qed

lemma foldl_makes_own:
  assumes "length (fst st) = length (snd st)" "\<forall>(q, s) \<in> set xs. 0 \<le> s"
    "(p, s) \<in> set xs" "m < s"
  shows "own_chunk m p (foldl (place m) st xs)"
proof -
  from assms(3) obtain ys zs where xs: "xs = ys @ (p, s) # zs" by (meson split_list)
  let ?st1 = "foldl (place m) st ys"
  have 1: "length (fst ?st1) = length (snd ?st1)" by (rule foldl_place_length[OF assms(1)])
  have 2: "own_chunk m p (place m ?st1 (p, s))" by (rule place_makes_own[OF 1 assms(4)])
  have 3: "length (fst (place m ?st1 (p, s))) = length (snd (place m ?st1 (p, s)))"
    by (rule place_length[OF 1])
  have "own_chunk m p (foldl (place m) (place m ?st1 (p, s)) zs)"
    using assms(2) by (intro foldl_keeps_own[OF 3 _ 2]) (auto simp: xs)
  then show ?thesis by (simp add: xs)
qed

lemma create_chunks_own_chunk:
  assumes "\<forall>(q, s) \<in> set packages. 0 \<le> s" "(p, s) \<in> set packages" "m < s"
  shows "[p] \<in> set (create_chunks packages m)"
proof -
  have "own_chunk m p (foldl (place m) ([], []) (sorted_packages packages))"
    using assms by (intro foldl_makes_own[where s = s]) (auto simp: set_sorted_packages)
  then obtain i where "i < length (fst (foldl (place m) ([], []) (sorted_packages packages)))"
    "fst (foldl (place m) ([], []) (sorted_packages packages)) ! i = [p]"
    by (auto simp: own_chunk_def)
  then have "[p] \<in> set (fst (foldl (place m) ([], []) (sorted_packages packages)))"
    by (metis nth_mem)
  then have "sort [p] \<in> set (create_chunks packages m)"
    unfolding create_chunks_def by (simp only: set_map image_eqI)
  then show ?thesis by simp
qed

lemma create_chunks_alone:
  assumes "distinct (map fst packages)" "[p] \<in> set (create_chunks packages m)"
    "c \<in> set (create_chunks packages m)" "p \<in> set c"
  shows "c = [p]"
proof (rule ccontr)
  assume "c \<noteq> [p]"
  moreover have "distinct (concat (create_chunks packages m))"
    by (rule create_chunks_distinct[OF assms(1)])
  ultimately have "set c \<inter> set [p] = {}"
    using assms(2,3) unfolding distinct_concat_iff by blast
  with assms(4) show False by simp
qed

subsection \<open>The claims about \<open>create_chunks\<close>\<close>

lemma create_chunks_names:
  assumes "c \<in> set (create_chunks packages m)" "p \<in> set c"
  shows "p \<in> fst ` set packages"
proof -
  have "p \<in> set (concat (create_chunks packages m))" using assms by auto
  moreover have "set (concat (create_chunks packages m)) = set (map fst packages)"
    by (rule mset_eq_setD[OF create_chunks_mset])
  ultimately have "p \<in> set (map fst packages)" by (simp only:)
  then show ?thesis by simp
qed

text \<open>
  Claim C1, as stated, fails: a package larger than \<open>max_size\<close> is given a chunk of its
  own by the guard at the head of the loop, and that chunk exceeds \<open>max_size\<close>. Here a
  single package of size 5 with \<open>max_size = 3\<close>.
\<close>

theorem create_chunks_oversize_counterexample:
  "\<not> (\<forall>c \<in> set (create_chunks [(''elm/core'', 5)] 3).
          chunk_total [(''elm/core'', 5)] c \<le> 3)"
  by (simp add: create_chunks_def sorted_packages_def place_def chunk_total_def size_of_def)

text \<open>
  Claim C1, amended. For every input list that names each package once and every
  \<open>max_size\<close>: every chunk either has total size at most \<open>max_size\<close>, or consists of a
  single package whose own size exceeds \<open>max_size\<close>. In particular, when no package
  alone exceeds \<open>max_size\<close>, no chunk does.
\<close>

theorem create_chunks_max_size:
  assumes "distinct (map fst packages)"
  shows "(\<forall>c \<in> set (create_chunks packages max_size).
            chunk_total packages c \<le> max_size \<or>
            (\<exists>p. c = [p] \<and> max_size < size_of packages p)) \<and>
         ((\<forall>(p, s) \<in> set packages. s \<le> max_size) \<longrightarrow>
            (\<forall>c \<in> set (create_chunks packages max_size). chunk_total packages c \<le> max_size))"
proof (intro conjI impI ballI)
  fix c assume "c \<in> set (create_chunks packages max_size)"
  then show "chunk_total packages c \<le> max_size \<or>
             (\<exists>p. c = [p] \<and> max_size < size_of packages p)"
    by (rule create_chunks_chunk_bound[OF assms])
next
  fix c
  assume small: "\<forall>(p, s) \<in> set packages. s \<le> max_size"
    and c: "c \<in> set (create_chunks packages max_size)"
  have "\<not> (\<exists>p. c = [p] \<and> max_size < size_of packages p)"
  proof
    assume "\<exists>p. c = [p] \<and> max_size < size_of packages p"
    then obtain p where p: "c = [p]" "max_size < size_of packages p" by blast
    then have "p \<in> fst ` set packages" using create_chunks_names[OF c, of p] by simp
    then obtain s where s: "(p, s) \<in> set packages" by auto
    then have "size_of packages p = s" by (rule size_of_distinct[OF assms])
    with small s p(2) show False by auto
  qed
  with create_chunks_chunk_bound[OF assms c] show "chunk_total packages c \<le> max_size" by blast
qed

theorem create_chunks_max_size_witness:
  "distinct (map fst [(''elm/core'', 5::int), (''elm/json'', 2), (''a/b'', 1)]) \<and>
   create_chunks [(''elm/core'', 5), (''elm/json'', 2), (''a/b'', 1)] 3
     = [[''elm/core''], [''a/b'', ''elm/json'']] \<and>
   chunk_total [(''elm/core'', 5), (''elm/json'', 2), (''a/b'', 1)] [''a/b'', ''elm/json''] = 3 \<and>
   3 < size_of [(''elm/core'', 5), (''elm/json'', 2), (''a/b'', 1)] ''elm/core''"
  using create_chunks_max_size [of "[(''elm/core'', 5), (''elm/json'', 2), (''a/b'', 1)]" 3]
  by (simp add: create_chunks_def sorted_packages_def place_def chunk_total_def size_of_def)

text \<open>
  Claim C10. Sizes are byte counts (\<open>get_dir_size\<close> sums \<open>st_size\<close> over the files of a
  package), so no size is negative. For every such input list and every \<open>max_size\<close>, a
  package whose size exceeds \<open>max_size\<close> has a chunk that is that package alone; when the
  input names each package once, that is the only chunk the package is in.
\<close>

theorem create_chunks_oversized_alone:
  assumes "\<forall>(q, z) \<in> set packages. 0 \<le> z" "(p, s) \<in> set packages" "max_size < s"
  shows "[p] \<in> set (create_chunks packages max_size) \<and>
         (distinct (map fst packages) \<longrightarrow>
            (\<forall>c \<in> set (create_chunks packages max_size). p \<in> set c \<longrightarrow> c = [p]))"
  using create_chunks_own_chunk[OF assms] create_chunks_alone by blast

theorem create_chunks_oversized_alone_witness:
  "(0 \<le> (5::int) \<and> 0 \<le> (2::int) \<and> 0 \<le> (1::int)) \<and>
   (''elm/core'', 5) \<in> set [(''elm/core'', 5::int), (''elm/json'', 2), (''a/b'', 1)] \<and>
   (3::int) < 5 \<and>
   distinct (map fst [(''elm/core'', 5::int), (''elm/json'', 2), (''a/b'', 1)]) \<and>
   [''elm/core''] \<in> set (create_chunks [(''elm/core'', 5), (''elm/json'', 2), (''a/b'', 1)] 3)"
  using create_chunks_oversized_alone
    [of "[(''elm/core'', 5), (''elm/json'', 2), (''a/b'', 1)]" "''elm/core''" 5 3]
  by simp

text \<open>
  The hypothesis on the sizes is needed by the code as written: the first-fit test
  \<open>chunk_sizes[i] + package_size <= max_size\<close> also looks at the chunks of oversized
  packages, and a negative size would pass it.
\<close>

lemma create_chunks_negative_size:
  "create_chunks [(''a/big'', 15), (''b/odd'', - 6)] 10 = [[''a/big'', ''b/odd'']]"
  by (simp add: create_chunks_def sorted_packages_def place_def)

text \<open>
  Claim C4. Four packages of sizes 1.2, 0.9, 0.5 and 0.3 GB, in this order, with a cap of
  1.9 GB; \<open>u\<close> is a tenth of a GB in bytes. The packer puts the 1.2 GB package with the
  0.5 GB one (1.7 GB) and the 0.9 GB package with the 0.3 GB one (1.2 GB): no chunk
  exceeds the cap, and neither the 0.9 GB nor the 0.3 GB package, each of which would
  push the first chunk over the cap, shares it.
\<close>

theorem bundle_packing_scenario:
  assumes "0 < u" "distinct [a, b, c, d]"
  shows "create_chunks [(a, 12 * u), (b, 9 * u), (c, 5 * u), (d, 3 * u)] (19 * u)
           = [sort [a, c], sort [b, d]] \<and>
         chunk_total [(a, 12 * u), (b, 9 * u), (c, 5 * u), (d, 3 * u)] (sort [a, c]) = 17 * u \<and>
         chunk_total [(a, 12 * u), (b, 9 * u), (c, 5 * u), (d, 3 * u)] (sort [b, d]) = 12 * u \<and>
         17 * u \<le> 19 * u \<and> 12 * u \<le> 19 * u \<and>
         b \<notin> set (sort [a, c]) \<and> d \<notin> set (sort [a, c])"
  using assms
  by (auto simp: create_chunks_def sorted_packages_def place_def chunk_total_def size_of_def)

theorem bundle_packing_scenario_witness:
  "(0::int) < 100000000 \<and> distinct [''elm/core'', ''elm/json'', ''elm/html'', ''elm/time''] \<and>
   create_chunks [(''elm/core'', 1200000000), (''elm/json'', 900000000),
                  (''elm/html'', 500000000), (''elm/time'', 300000000)] 1900000000
     = [[''elm/core'', ''elm/html''], [''elm/json'', ''elm/time'']]"
  using bundle_packing_scenario
    [of 100000000 "''elm/core''" "''elm/json''" "''elm/html''" "''elm/time''"]
  by simp

text \<open>
  The same packing results when the sizes are read in units of \<open>2^30\<close> bytes (rounded
  up to whole bytes) and the cap is the \<open>MAX_CHUNK_SIZE\<close> of the source.
\<close>

lemma bundle_packing_max_chunk_size:
  "create_chunks [(''elm/core'', 1288490189), (''elm/json'', 966367642),
                  (''elm/html'', 536870912), (''elm/time'', 322122548)] MAX_CHUNK_SIZE
     = [[''elm/core'', ''elm/html''], [''elm/json'', ''elm/time'']]"
  by (simp add: MAX_CHUNK_SIZE_def create_chunks_def sorted_packages_def place_def)

section \<open>Proofs about the backfill utility\<close>

subsection \<open>Writing\<close>

lemma map_of_open_w: "map_of (open_w fs p) = (map_of fs)(p \<mapsto> File [])"
  by (simp add: open_w_def update_conv')

lemma map_of_json_dump: "map_of (json_dump fs p s) = (map_of fs)(p \<mapsto> File s)"
  by (simp add: json_dump_def update_conv')

lemma write_docs_other:
  "q \<noteq> p \<Longrightarrow> map_of (fst (write_docs dsk fs p docs)) q = map_of fs q"
  by (simp add: write_docs_def map_of_open_w map_of_json_dump split: write_result.splits)

lemma write_docs_at:
  "map_of (fst (write_docs dsk fs p docs)) p =
     (case dsk p of OpenFailed \<Rightarrow> map_of fs p
      | WriteFailed n \<Rightarrow> Some (File (take n docs))
      | Written \<Rightarrow> Some (File docs))"
  by (simp add: write_docs_def map_of_open_w map_of_json_dump split: write_result.splits)

lemma write_docs_ok: "snd (write_docs dsk fs p docs) = (dsk p = Written)"
  by (simp add: write_docs_def split: write_result.splits)

subsection \<open>One iteration\<close>

lemma process_trace:
  "trace (process up dsk delay n_packages st ip) = trace st @ step_events delay n_packages ip"
  by (cases ip)
     (simp add: process_def step_events_def fetch_of_def Let_def
           split: fetch_result.splits prod.splits bool.splits)

lemma process_files_other:
  "q \<noteq> docs_path (snd ip) \<Longrightarrow>
   map_of (files (process up dsk delay n_packages st ip)) q = map_of (files st) q"
proof (cases ip)
  case (Pair i pkg)
  assume q: "q \<noteq> docs_path (snd ip)"
  show ?thesis
  proof (cases "up (author pkg, name pkg, version pkg)")
    case (Docs docs)
    obtain fs' ok where w: "write_docs dsk (files st) (docs_path pkg) docs = (fs', ok)"
      by (cases "write_docs dsk (files st) (docs_path pkg) docs")
    have "map_of fs' q = map_of (files st) q"
      using write_docs_other[of q "docs_path pkg" dsk "files st" docs] q w Pair by simp
    then show ?thesis using Docs w Pair
      by (cases ok) (simp_all add: process_def fetch_docs_json_def Let_def)
  qed (simp_all add: process_def fetch_docs_json_def Let_def Pair)
qed


subsection \<open>The whole loop\<close>

lemma foldl_process_trace:
  "trace (foldl (process up dsk delay n_packages) st ips)
     = trace st @ concat (map (step_events delay n_packages) ips)"
  by (induction ips arbitrary: st) (simp_all add: process_trace)

lemma foldl_process_files_other:
  "q \<notin> docs_path ` snd ` set ips \<Longrightarrow>
   map_of (files (foldl (process up dsk delay n_packages) st ips)) q = map_of (files st) q"
  by (induction ips arbitrary: st) (simp_all add: process_files_other)


lemma snd_set_enumerate: "snd ` set (enumerate k xs) = set xs"
  by (metis map_snd_enumerate set_map)

lemma fetched_step:
  "fetched (step_events delay n_packages ip @ es) =
     (author (snd ip), name (snd ip), version (snd ip)) # fetched es"
  by (simp add: step_events_def fetch_of_def)

lemma fetched_step_events:
  "fetched (concat (map (step_events delay n_packages) ips)) =
     map (\<lambda>ip. (author (snd ip), name (snd ip), version (snd ip))) ips"
  by (induction ips) (simp_all add: fetched_step)

lemma map_enumerate_snd: "map (\<lambda>ip. f (snd ip)) (enumerate k xs) = map f xs"
  by (induction xs arbitrary: k) simp_all

lemma fetched_events:
  "fetched (concat (map (step_events delay n_packages) (enumerate k xs))) =
     map (\<lambda>pkg. (author pkg, name pkg, version pkg)) xs"
  unfolding fetched_step_events by (rule map_enumerate_snd)

lemma events_intersperse:
  assumes "0 < delay"
  shows "concat (map (step_events delay (k + length xs - 1)) (enumerate k xs))
           = intersperse (Sleep delay) (map fetch_of xs)"
proof (induction xs arbitrary: k rule: induct_list012)
  case 1
  then show ?case by simp
next
  case (2 x)
  then show ?case by (simp add: step_events_def)
next
  case (3 x y ys)
  have "Suc k + length (y # ys) - 1 = k + length (x # y # ys) - 1" by simp
  with 3(2)[of "Suc k"] show ?case using assms by (simp add: step_events_def)
qed

lemma events_no_delay:
  assumes "\<not> 0 < delay"
  shows "concat (map (step_events delay n_packages) (enumerate k xs)) = map fetch_of xs"
  using assms by (induction xs arbitrary: k) (simp_all add: step_events_def)

lemma sleeps_intersperse:
  "sleeps (intersperse (Sleep d) (map fetch_of xs)) = replicate (length xs - 1) d"
  by (induction xs rule: induct_list012) (simp_all add: fetch_of_def)

subsection \<open>Selection\<close>

lemma iterdir_dir:
  "(q \<in> set (iterdir fs p) \<and> is_dir fs q) = ((\<exists>x. q = p @ [x]) \<and> is_dir fs q)"
proof -
  have "is_dir fs q \<Longrightarrow> q \<in> fst ` set fs"
    unfolding is_dir_def by (metis map_of_SomeD fst_conv image_eqI)
  moreover have "q \<noteq> [] \<Longrightarrow> butlast q = p \<Longrightarrow> \<exists>x. q = p @ [x]"
    by (metis append_butlast_last_id)
  ultimately show ?thesis by (auto simp: iterdir_def)
qed

lemma packages_to_update_iff:
  "pkg \<in> set (packages_to_update fs) =
     (\<exists>ad nd vd.
        (ad \<in> set (iterdir fs packages_dir) \<and> is_dir fs ad) \<and>
        (nd \<in> set (iterdir fs ad) \<and> is_dir fs nd) \<and>
        (vd \<in> set (iterdir fs nd) \<and> is_dir fs vd) \<and>
        path_exists fs (vd @ [''elm.json'']) \<and> \<not> path_exists fs (vd @ [''docs.json'']) \<and>
        pkg = \<lparr>author = last ad, name = last nd, version = last vd,
                docs_path = vd @ [''docs.json'']\<rparr>)"
  unfolding packages_to_update_def by auto

lemma set_packages_to_update:
  "set (packages_to_update fs) = {mk_pkg a n v | a n v. needs_docs fs a n v}"
proof (intro set_eqI iffI)
  fix pkg assume "pkg \<in> set (packages_to_update fs)"
  then obtain ad nd vd where
    ad: "ad \<in> set (iterdir fs packages_dir) \<and> is_dir fs ad" and
    nd: "nd \<in> set (iterdir fs ad) \<and> is_dir fs nd" and
    vd: "vd \<in> set (iterdir fs nd) \<and> is_dir fs vd" and
    ex: "path_exists fs (vd @ [''elm.json''])" "\<not> path_exists fs (vd @ [''docs.json''])" and
    pkg: "pkg = \<lparr>author = last ad, name = last nd, version = last vd,
                  docs_path = vd @ [''docs.json'']\<rparr>"
    unfolding packages_to_update_iff by blast
  from ad obtain a where a: "ad = [''packages'', a]" "is_dir fs ad"
    unfolding iterdir_dir by (auto simp: packages_dir_def)
  from nd obtain n where n: "nd = [''packages'', a, n]" "is_dir fs nd"
    unfolding iterdir_dir by (auto simp: a)
  from vd obtain v where v: "vd = [''packages'', a, n, v]" "is_dir fs vd"
    unfolding iterdir_dir by (auto simp: n)
  have "needs_docs fs a n v" using a n v ex by (simp add: needs_docs_def)
  moreover have "pkg = mk_pkg a n v" by (simp add: pkg a n v mk_pkg_def)
  ultimately show "pkg \<in> {mk_pkg a n v | a n v. needs_docs fs a n v}" by blast
next
  fix pkg assume "pkg \<in> {mk_pkg a n v | a n v. needs_docs fs a n v}"
  then obtain a n v where pkg: "pkg = mk_pkg a n v" and nd: "needs_docs fs a n v" by blast
  have 1: "[''packages'', a] \<in> set (iterdir fs packages_dir) \<and> is_dir fs [''packages'', a]"
    unfolding iterdir_dir using nd by (simp add: needs_docs_def packages_dir_def)
  have 2: "[''packages'', a, n] \<in> set (iterdir fs [''packages'', a]) \<and> is_dir fs [''packages'', a, n]"
    unfolding iterdir_dir using nd by (simp add: needs_docs_def)
  have 3: "[''packages'', a, n, v] \<in> set (iterdir fs [''packages'', a, n]) \<and>
           is_dir fs [''packages'', a, n, v]"
    unfolding iterdir_dir using nd by (simp add: needs_docs_def)
  show "pkg \<in> set (packages_to_update fs)"
    unfolding packages_to_update_iff
    apply (rule exI[of _ "[''packages'', a]"])
    apply (rule exI[of _ "[''packages'', a, n]"])
    apply (rule exI[of _ "[''packages'', a, n, v]"])
    using 1 2 3 nd by (simp add: needs_docs_def pkg mk_pkg_def)
qed

subsection \<open>The run as a whole\<close>

lemma compute_delay_in_range:
  "rate_limit < 2 ^ 1024 - 2 ^ 970 \<Longrightarrow> compute_delay rate_limit = Inr (double_delay rate_limit)"
  by (simp add: compute_delay_def double_delay_def)

lemma compute_delay_overflow:
  "2 ^ 1024 - 2 ^ 970 \<le> rate_limit \<Longrightarrow> compute_delay rate_limit = Inl OverflowError"
proof -
  assume a: "2 ^ 1024 - 2 ^ 970 \<le> rate_limit"
  have "(0::int) < 2 ^ 1024 - 2 ^ 970" by simp
  with a have "0 < rate_limit" by linarith
  with a show ?thesis by (simp add: compute_delay_def)
qed

lemma main_run:
  assumes "is_dir fs packages_dir" "rate_limit < 2 ^ 1024 - 2 ^ 970"
  shows "snd (main up dsk rate_limit fs) =
           foldl (process up dsk (double_delay rate_limit) (length (packages_to_update fs)))
             \<lparr>files = fs, success_count = 0, fail_count = 0, trace = []\<rparr>
             (enumerate 1 (packages_to_update fs))"
    and "fst (main up dsk rate_limit fs) =
           Return (if fail_count (snd (main up dsk rate_limit fs)) = 0 then 0 else 1)"
  using assms(1)
  by (simp_all add: main_def Let_def path_exists_def is_dir_def
        compute_delay_in_range[OF assms(2)])

lemma main_overflow:
  assumes "path_exists fs packages_dir" "2 ^ 1024 - 2 ^ 970 \<le> rate_limit"
  shows "main up dsk rate_limit fs =
           (Uncaught OverflowError,
            \<lparr>files = fs, success_count = 0, fail_count = 0, trace = []\<rparr>)"
  using assms(1) by (simp add: main_def Let_def compute_delay_overflow[OF assms(2)])

lemma main_files_other:
  assumes "q \<notin> docs_path ` set (packages_to_update fs)"
  shows "map_of (files (snd (main up dsk rate_limit fs))) q = map_of fs q"
proof -
  have "q \<notin> docs_path ` snd ` set (enumerate 1 (packages_to_update fs))"
    using assms by (simp add: snd_set_enumerate)
  then show ?thesis
    by (simp add: main_def Let_def foldl_process_files_other split: sum.splits)
qed

lemma main_trace:
  assumes "is_dir fs packages_dir" "rate_limit < 2 ^ 1024 - 2 ^ 970"
  shows "trace (snd (main up dsk rate_limit fs)) =
           concat (map (step_events (double_delay rate_limit) (length (packages_to_update fs)))
                       (enumerate 1 (packages_to_update fs)))"
  by (simp add: main_run(1)[OF assms] foldl_process_trace)

lemma main_trace_subset:
  "set (fetched (trace (snd (main up dsk rate_limit fs))))
     \<subseteq> (\<lambda>pkg. (author pkg, name pkg, version pkg)) ` set (packages_to_update fs)"
  by (auto simp: main_def Let_def foldl_process_trace fetched_step_events
           split: sum.splits dest!: in_set_enumerate_eq[THEN iffD1])


subsection \<open>Rounding to a double\<close>

lemma round_half_even_error: "\<bar>of_int (round_half_even y) - y\<bar> \<le> 1 / 2"
  unfolding round_half_even_def Let_def by (auto simp: abs_if) linarith+

lemma floor_log2:
  assumes "2 powr of_int e \<le> x" "x < 2 powr (of_int e + 1)"
  shows "\<lfloor>log 2 x\<rfloor> = e"
proof -
  have pos: "0 < x" using assms(1) by (smt (verit) powr_gt_zero)
  show ?thesis
    using floor_log_eq_powr_iff[of x 2 e] pos assms by simp
qed

lemma powr_floor_log2_le:
  assumes "0 < x"
  shows "2 powr of_int \<lfloor>log 2 x\<rfloor> \<le> x"
proof -
  have "of_int \<lfloor>log 2 x\<rfloor> \<le> log 2 x" by simp
  then have "2 powr of_int \<lfloor>log 2 x\<rfloor> \<le> 2 powr log 2 x" by simp
  then show ?thesis using assms by simp
qed

text \<open>A double in the normal range is within half a spacing of the real it rounds.\<close>

lemma to_double_error:
  assumes "2 powr (- 1022) \<le> x"
  shows "\<bar>to_double x - x\<bar> \<le> x / 2 ^ 53"
proof -
  have pos: "0 < x" using assms by (smt (verit) powr_gt_zero)
  define e where "e = \<lfloor>log 2 x\<rfloor>"
  have "log 2 (2 powr (- 1022)) \<le> log 2 x" using assms pos by (subst log_le_cancel_iff) simp_all
  then have "- 1022 \<le> log 2 x" by simp
  then have e: "- 1022 \<le> e" unfolding e_def by (simp add: le_floor_iff)
  define ulp :: real where "ulp = 2 powr (of_int e - 52)"
  have ulp: "0 < ulp" unfolding ulp_def by simp
  have td: "to_double x = of_int (round_half_even (x / ulp)) * ulp"
    using e by (simp add: to_double_def Let_def e_def[symmetric] ulp_def max_def)
  have "to_double x - x = (of_int (round_half_even (x / ulp)) - x / ulp) * ulp"
    using ulp unfolding td by (simp add: field_simps)
  then have "\<bar>to_double x - x\<bar> = \<bar>of_int (round_half_even (x / ulp)) - x / ulp\<bar> * ulp"
    using ulp by (simp add: abs_mult)
  also have "\<dots> \<le> (1 / 2) * ulp"
    using round_half_even_error[of "x / ulp"] ulp by (intro mult_right_mono) simp_all
  also have "\<dots> = 2 powr of_int e / 2 ^ 53"
  proof -
    have "ulp = 2 powr of_int e / 2 powr 52" unfolding ulp_def by (simp add: powr_diff)
    also have "(2::real) powr 52 = 2 ^ 52" by (simp add: powr_numeral)
    finally show ?thesis by simp
  qed
  also have "\<dots> \<le> x / 2 ^ 53"
    using powr_floor_log2_le[OF pos] unfolding e_def by (simp add: divide_right_mono)
  finally show ?thesis .
qed

lemma ratio_bound:
  fixes a b u :: real
  assumes "\<bar>a - 1\<bar> \<le> u" "\<bar>b - 1\<bar> \<le> u" "u \<le> 1 / 4"
  shows "\<bar>b / a - 1\<bar> \<le> 4 * u"
proof -
  have a: "1 / 2 \<le> a" using assms by linarith
  then have apos: "0 < a" by linarith
  have u: "0 \<le> u" using assms(1) by linarith
  have "b / a - 1 = (b - a) / a" using apos by (simp add: field_simps)
  then have "\<bar>b / a - 1\<bar> = \<bar>b - a\<bar> / a" using apos by simp
  also have "\<dots> \<le> (2 * u) / a"
    using assms apos by (intro divide_right_mono) linarith+
  also have "\<dots> \<le> (2 * u) / (1 / 2)"
    using a u by (intro divide_left_mono) simp_all
  finally show ?thesis by simp
qed

lemma to_double_ratio:
  assumes "2 powr (- 1022) \<le> x"
  shows "\<bar>to_double x / x - 1\<bar> \<le> 1 / 2 ^ 53"
proof -
  have pos: "0 < x" using assms by (smt (verit) powr_gt_zero)
  have "to_double x / x - 1 = (to_double x - x) / x" using pos by (simp add: field_simps)
  then have "\<bar>to_double x / x - 1\<bar> = \<bar>to_double x - x\<bar> / x" using pos by simp
  also have "\<dots> \<le> (x / 2 ^ 53) / x"
    using to_double_error[OF assms] pos by (intro divide_right_mono) simp_all
  finally show ?thesis using pos by simp
qed

lemma scale_abs:
  fixes d r c :: real
  assumes "0 < r" "\<bar>d / r - 1\<bar> \<le> c"
  shows "\<bar>d - r\<bar> \<le> r * c"
proof -
  have "d - r = (d / r - 1) * r" using assms(1) by (simp add: field_simps)
  then have "\<bar>d - r\<bar> = \<bar>d / r - 1\<bar> * r" using assms(1) by (simp add: abs_mult)
  also have "\<dots> \<le> c * r" using assms by (intro mult_right_mono) simp_all
  finally show ?thesis by (simp add: mult.commute)
qed

lemma small_powr: "(2::real) powr (- 1022) = 1 / 2 ^ 1022"
  by (simp add: powr_minus_divide powr_numeral)

text \<open>
  The delay of a rate limit in the range of the doubles: two roundings, of the rate
  limit and of the quotient, each with a relative error of at most \<open>2^-53\<close>.
\<close>

lemma double_quotient:
  fixes n :: int
  assumes "0 < n" "n < 2 ^ 1024 - 2 ^ 970"
  shows "0 < to_double (3600 / to_double (real_of_int n))"
    and "\<bar>to_double (3600 / to_double (real_of_int n)) - 3600 / real_of_int n\<bar>
           \<le> 3600 / real_of_int n / 2 ^ 51"
proof -
  define x where "x = real_of_int n"
  define x1 where "x1 = to_double x"
  define q where "q = 3600 / x1"
  define d where "d = to_double q"
  have x: "1 \<le> x" using assms(1) by (simp add: x_def)
  have "n < 2 ^ 1024" using assms(2) by simp
  then have xu: "x < 2 ^ 1024" unfolding x_def by (metis of_int_less_numeral_power_cancel_iff)
  have xn: "2 powr (- 1022) \<le> x" using x unfolding small_powr
    by (smt (verit) divide_le_eq_1_pos one_le_power)
  have a: "\<bar>x1 / x - 1\<bar> \<le> 1 / 2 ^ 53" unfolding x1_def by (rule to_double_ratio[OF xn])
  have "x1 / x \<le> 1 + 1 / 2 ^ 53" "1 - 1 / 2 ^ 53 \<le> x1 / x" using a by linarith+
  then have x1b: "x1 \<le> 2 * x" "x / 2 \<le> x1"
    using x by (simp_all add: field_simps)
  have x1pos: "0 < x1" using x1b x by linarith
  have qpos: "0 < q" unfolding q_def using x1pos by simp
  have "x1 \<le> 2 ^ 1025" using x1b xu by simp
  then have "3600 / 2 ^ 1025 \<le> q" unfolding q_def using x1pos
    by (intro divide_left_mono) simp_all
  moreover have "(1::real) / 2 ^ 1022 \<le> 3600 / 2 ^ 1025" by simp
  ultimately have qn: "2 powr (- 1022) \<le> q" unfolding small_powr by linarith
  have b: "\<bar>d / q - 1\<bar> \<le> 1 / 2 ^ 53" unfolding d_def by (rule to_double_ratio[OF qn])
  have four: "4 * (1 / 2 ^ 53) = (1::real) / 2 ^ 51" by simp
  have eq: "(d / q) / (x1 / x) = d / (3600 / x)"
    using x1pos x by (simp add: q_def field_simps)
  have "\<bar>(d / q) / (x1 / x) - 1\<bar> \<le> 4 * (1 / 2 ^ 53)"
    by (rule ratio_bound[OF a b]) simp
  then have r: "\<bar>d / (3600 / x) - 1\<bar> \<le> 1 / 2 ^ 51"
    unfolding eq four .
  have rpos: "0 < 3600 / x" using x by simp
  have "\<bar>d - 3600 / x\<bar> \<le> 3600 / x * (1 / 2 ^ 51)" by (rule scale_abs[OF rpos r])
  then have e: "\<bar>d - 3600 / x\<bar> \<le> 3600 / x / 2 ^ 51" by simp
  show "\<bar>to_double (3600 / to_double (real_of_int n)) - 3600 / real_of_int n\<bar>
           \<le> 3600 / real_of_int n / 2 ^ 51"
    using e unfolding d_def q_def x1_def x_def .
  have "3600 / x / 2 ^ 51 < 3600 / x" using rpos by (simp add: field_simps)
  with e have "0 < d" by linarith
  then show "0 < to_double (3600 / to_double (real_of_int n))"
    unfolding d_def q_def x1_def x_def .
qed

text \<open>The doubles of the examples.\<close>

lemma to_double_eval:
  assumes "2 powr of_int e \<le> x" "x < 2 powr (of_int e + 1)" "- 1022 \<le> e"
    "round_half_even (x / 2 powr (of_int e - 52)) = m"
  shows "to_double x = of_int m * 2 powr (of_int e - 52)"
  using assms(3,4) floor_log2[OF assms(1,2)] by (simp add: to_double_def Let_def max_def)

lemma to_double_10000: "to_double 10000 = 10000"
  using to_double_eval[of 13 10000 "10000 * 2 ^ 39"]
  by (simp add: powr_minus_divide powr_numeral round_half_even_def)

lemma to_double_11: "to_double 11 = 11"
  using to_double_eval[of 3 11 "11 * 2 ^ 49"]
  by (simp add: powr_minus_divide powr_numeral round_half_even_def)

lemma to_double_9_25: "to_double (9 / 25) = 3242591731706757 / 2 ^ 53"
  using to_double_eval[of "- 2" "9 / 25" 6485183463413514]
  by (simp add: powr_minus_divide powr_numeral round_half_even_def)

lemma to_double_3600_11: "to_double (3600 / 11) = 5757442705445236 / 2 ^ 44"
  using to_double_eval[of 8 "3600 / 11" 5757442705445236]
  by (simp add: powr_minus_divide powr_numeral round_half_even_def)

text \<open>
  The conversion of an \<open>int\<close> overflows from \<open>2^1024 - 2^970\<close> on: that number is half-way
  between the largest double and \<open>2^1024\<close> and the tie goes up, while the number before
  it rounds down to the largest double.
\<close>

lemma to_double_overflow: "to_double (2 ^ 1024 - 2 ^ 970) = 2 ^ 1024"
  using to_double_eval[of 1023 "2 ^ 1024 - 2 ^ 970" "2 ^ 53"]
  by (simp add: powr_minus_divide powr_numeral round_half_even_def)

lemma to_double_largest: "to_double (2 ^ 1024 - 2 ^ 970 - 1) = 2 ^ 1024 - 2 ^ 971"
  using to_double_eval[of 1023 "2 ^ 1024 - 2 ^ 970 - 1" "2 ^ 53 - 1"]
  by (simp add: powr_minus_divide powr_numeral round_half_even_def)

subsection \<open>The claims about the backfill utility\<close>

lemma default_rate_limit: "(10000::int) < 2 ^ 1024 - 2 ^ 970"
  by simp

lemma double_delay_nonpos: "rate_limit \<le> 0 \<Longrightarrow> double_delay rate_limit = 0"
  by (simp add: double_delay_def)

lemma double_delay_pos:
  "0 < rate_limit \<Longrightarrow>
   double_delay rate_limit = to_double (3600 / to_double (real_of_int rate_limit))"
  by (simp add: double_delay_def)

lemma double_delay_11: "double_delay 11 = 5757442705445236 / 2 ^ 44"
  by (simp add: double_delay_def to_double_11 to_double_3600_11)

lemma example_is_dir: "is_dir example_mirror packages_dir"
  by (simp add: is_dir_def example_mirror_def packages_dir_def)

lemma example_packages_to_update:
  "packages_to_update example_mirror = [mk_pkg ''elm'' ''core'' ''1.0.5'', mk_pkg ''elm'' ''json'' ''1.1.3'']"
  by (simp add: packages_to_update_def iterdir_def is_dir_def path_exists_def
        example_mirror_def packages_dir_def mk_pkg_def)

lemma docs_path_mk_pkg: "docs_path (mk_pkg a n v) = [''packages'', a, n, v, ''docs.json'']"
  by (simp add: mk_pkg_def)

lemma ident_mk_pkg:
  "(\<lambda>pkg. (author pkg, name pkg, version pkg)) ` {mk_pkg a n v | a n v. P a n v}
     = {(a, n, v). P a n v}"
proof (intro set_eqI iffI)
  fix x assume "x \<in> (\<lambda>pkg. (author pkg, name pkg, version pkg)) ` {mk_pkg a n v | a n v. P a n v}"
  then show "x \<in> {(a, n, v). P a n v}" by (auto simp: mk_pkg_def)
next
  fix x assume "x \<in> {(a, n, v). P a n v}"
  then obtain a n v where x: "x = (a, n, v)" "P a n v" by auto
  then have "mk_pkg a n v \<in> {mk_pkg a n v | a n v. P a n v}" by blast
  moreover have "x = (author (mk_pkg a n v), name (mk_pkg a n v), version (mk_pkg a n v))"
    by (simp add: x mk_pkg_def)
  ultimately show "x \<in> (\<lambda>pkg. (author pkg, name pkg, version pkg)) ` {mk_pkg a n v | a n v. P a n v}"
    by (rule rev_image_eqI)
qed

lemma docs_path_selected:
  assumes "p \<in> docs_path ` set (packages_to_update fs)"
  shows "\<exists>a n v. p = [''packages'', a, n, v, ''docs.json''] \<and> needs_docs fs a n v"
  using assms unfolding set_packages_to_update by (auto simp: docs_path_mk_pkg)



text \<open>
  Claim C8, as stated, fails: the delay is a double, and \<open>3600 / N\<close> is not one for most
  \<open>N\<close>. For \<open>N = 11\<close> the code sleeps \<open>5757442705445236 / 2^44\<close> seconds between the two
  requests of the example, which is less than \<open>3600 / 11\<close> (eleven such sleeps fall short
  of the hour by \<open>2^-42\<close> seconds).
\<close>

theorem backfill_delay_not_exact_counterexample:
  "sleeps (trace (snd (main example_upstream (\<lambda>_. Written) 11 example_mirror)))
     = [5757442705445236 / 2 ^ 44] \<and>
   (5757442705445236 / 2 ^ 44 :: real) < 3600 / 11 \<and>
   11 * (5757442705445236 / 2 ^ 44 :: real) = 3600 - 1 / 2 ^ 42"
proof -
  have "(11::int) < 2 ^ 1024 - 2 ^ 970" by simp
  from main_trace[OF example_is_dir this, of example_upstream "\<lambda>_. Written"]
  have "sleeps (trace (snd (main example_upstream (\<lambda>_. Written) 11 example_mirror)))
     = [5757442705445236 / 2 ^ 44]"
    by (simp add: example_packages_to_update step_events_def fetch_of_def double_delay_11)
  then show ?thesis by simp
qed

text \<open>
  Claim C8, amended. When \<open>packages\<close> is a directory: for a rate limit \<open>N\<close> with
  \<open>0 < N < 2^1024 - 2^970\<close> the run is the sequence of requests with one sleep between
  every two consecutive requests and none after the last, each sleep being of the
  double that \<open>3600.0 / N\<close> evaluates to, which is positive and within a relative error
  of \<open>2^-51\<close> of \<open>3600 / N\<close>; for \<open>N \<le> 0\<close> the run is the sequence of requests with no
  sleep at all; for \<open>N \<ge> 2^1024 - 2^970\<close> the division raises \<open>OverflowError\<close> and no
  request is sent.
\<close>

theorem backfill_rate_limit:
  assumes "is_dir fs packages_dir"
  shows "(0 < rate_limit \<and> rate_limit < 2 ^ 1024 - 2 ^ 970 \<longrightarrow>
            trace (snd (main up dsk rate_limit fs))
              = intersperse (Sleep (to_double (3600 / to_double (real_of_int rate_limit))))
                            (map fetch_of (packages_to_update fs)) \<and>
            sleeps (trace (snd (main up dsk rate_limit fs)))
              = replicate (length (packages_to_update fs) - 1)
                          (to_double (3600 / to_double (real_of_int rate_limit))) \<and>
            0 < to_double (3600 / to_double (real_of_int rate_limit)) \<and>
            \<bar>to_double (3600 / to_double (real_of_int rate_limit)) - 3600 / real_of_int rate_limit\<bar>
              \<le> 3600 / real_of_int rate_limit / 2 ^ 51) \<and>
         (rate_limit \<le> 0 \<longrightarrow>
            trace (snd (main up dsk rate_limit fs)) = map fetch_of (packages_to_update fs)) \<and>
         (2 ^ 1024 - 2 ^ 970 \<le> rate_limit \<longrightarrow>
            fst (main up dsk rate_limit fs) = Uncaught OverflowError \<and>
            trace (snd (main up dsk rate_limit fs)) = [])"
proof (intro conjI impI)
  assume "0 < rate_limit \<and> rate_limit < 2 ^ 1024 - 2 ^ 970"
  then have pos: "0 < rate_limit" and small: "rate_limit < 2 ^ 1024 - 2 ^ 970" by simp_all
  let ?d = "to_double (3600 / to_double (real_of_int rate_limit))"
  show dpos: "0 < ?d" by (rule double_quotient(1)[OF pos small])
  show "\<bar>?d - 3600 / real_of_int rate_limit\<bar> \<le> 3600 / real_of_int rate_limit / 2 ^ 51"
    by (rule double_quotient(2)[OF pos small])
  have d: "double_delay rate_limit = ?d" by (rule double_delay_pos[OF pos])
  have "1 + length (packages_to_update fs) - 1 = length (packages_to_update fs)" by simp
  with events_intersperse[OF dpos, of 1 "packages_to_update fs"]
  show t: "trace (snd (main up dsk rate_limit fs))
          = intersperse (Sleep ?d) (map fetch_of (packages_to_update fs))"
    by (simp add: main_trace[OF assms small] d)
  show "sleeps (trace (snd (main up dsk rate_limit fs)))
          = replicate (length (packages_to_update fs) - 1) ?d"
    unfolding t by (rule sleeps_intersperse)
next
  assume np: "rate_limit \<le> 0"
  have "(0::int) < 2 ^ 1024 - 2 ^ 970" by simp
  with np have small: "rate_limit < 2 ^ 1024 - 2 ^ 970" by linarith
  have "\<not> 0 < double_delay rate_limit" using np by (simp add: double_delay_nonpos)
  from events_no_delay[OF this]
  show "trace (snd (main up dsk rate_limit fs)) = map fetch_of (packages_to_update fs)"
    by (simp only: main_trace[OF assms small])
next
  assume big: "2 ^ 1024 - 2 ^ 970 \<le> rate_limit"
  have ex: "path_exists fs packages_dir" using assms by (simp add: is_dir_def path_exists_def)
  show "fst (main up dsk rate_limit fs) = Uncaught OverflowError"
    and "trace (snd (main up dsk rate_limit fs)) = []"
    by (simp_all add: main_overflow[OF ex big])
qed

theorem backfill_rate_limit_witness:
  "is_dir example_mirror packages_dir \<and>
   (0::int) < 10000 \<and> (10000::int) < 2 ^ 1024 - 2 ^ 970 \<and>
   trace (snd (main example_upstream (\<lambda>_. Written) 10000 example_mirror))
     = [Fetch ''elm'' ''core'' ''1.0.5'', Sleep (3242591731706757 / 2 ^ 53),
        Fetch ''elm'' ''json'' ''1.1.3''] \<and>
   (0::int) \<le> 0 \<and>
   trace (snd (main example_upstream (\<lambda>_. Written) 0 example_mirror))
     = [Fetch ''elm'' ''core'' ''1.0.5'', Fetch ''elm'' ''json'' ''1.1.3''] \<and>
   (2 ^ 1024 - 2 ^ 970 :: int) \<le> 2 ^ 1024 \<and>
   fst (main example_upstream (\<lambda>_. Written) (2 ^ 1024) example_mirror) = Uncaught OverflowError \<and>
   trace (snd (main example_upstream (\<lambda>_. Written) (2 ^ 1024) example_mirror)) = []"
proof -
  note t = backfill_rate_limit [OF example_is_dir, of _ example_upstream "\<lambda>_. Written"]
  have 1: "trace (snd (main example_upstream (\<lambda>_. Written) 10000 example_mirror))
     = [Fetch ''elm'' ''core'' ''1.0.5'', Sleep (3242591731706757 / 2 ^ 53),
        Fetch ''elm'' ''json'' ''1.1.3'']"
    using t[of 10000] default_rate_limit
    by (simp add: example_packages_to_update fetch_of_def mk_pkg_def
          to_double_10000 to_double_9_25)
  have 2: "trace (snd (main example_upstream (\<lambda>_. Written) 0 example_mirror))
     = [Fetch ''elm'' ''core'' ''1.0.5'', Fetch ''elm'' ''json'' ''1.1.3'']"
    using t[of 0] by (simp add: example_packages_to_update fetch_of_def mk_pkg_def)
  have big: "(2 ^ 1024 - 2 ^ 970 :: int) \<le> 2 ^ 1024" by simp
  have 3: "fst (main example_upstream (\<lambda>_. Written) (2 ^ 1024) example_mirror)
             = Uncaught OverflowError"
    "trace (snd (main example_upstream (\<lambda>_. Written) (2 ^ 1024) example_mirror)) = []"
    using t[of "2 ^ 1024"] big by blast+
  show ?thesis using example_is_dir default_rate_limit 1 2 big 3 by simp
qed

text \<open>
  Claim C7. The selected versions are exactly those whose version directory contains
  \<open>elm.json\<close> and no \<open>docs.json\<close>. A request is sent only for such a version (and, when
  \<open>packages\<close> is a directory and the rate limit is below \<open>2^1024 - 2^970\<close>, so that the
  delay can be computed, for every such version), and the \<open>docs.json\<close> path of any other
  version is left as it was.
\<close>

theorem backfill_selection:
  "set (packages_to_update fs) = {mk_pkg a n v | a n v. needs_docs fs a n v} \<and>
   (\<forall>a n v. (a, n, v) \<in> set (fetched (trace (snd (main up dsk rate_limit fs))))
        \<longrightarrow> needs_docs fs a n v) \<and>
   (is_dir fs packages_dir \<and> rate_limit < 2 ^ 1024 - 2 ^ 970 \<longrightarrow>
      set (fetched (trace (snd (main up dsk rate_limit fs)))) = {(a, n, v). needs_docs fs a n v}) \<and>
   (\<forall>a n v. \<not> needs_docs fs a n v \<longrightarrow>
      map_of (files (snd (main up dsk rate_limit fs))) [''packages'', a, n, v, ''docs.json'']
        = map_of fs [''packages'', a, n, v, ''docs.json''])"
proof (intro conjI allI impI)
  show "set (packages_to_update fs) = {mk_pkg a n v | a n v. needs_docs fs a n v}"
    by (rule set_packages_to_update)
next
  fix a n v
  assume "(a, n, v) \<in> set (fetched (trace (snd (main up dsk rate_limit fs))))"
  with main_trace_subset[of up dsk rate_limit fs]
  obtain pkg where "pkg \<in> set (packages_to_update fs)" "(a, n, v) = (author pkg, name pkg, version pkg)"
    by blast
  then show "needs_docs fs a n v"
    unfolding set_packages_to_update by (auto simp: mk_pkg_def)
next
  assume "is_dir fs packages_dir \<and> rate_limit < 2 ^ 1024 - 2 ^ 970"
  then have dir: "is_dir fs packages_dir" and small: "rate_limit < 2 ^ 1024 - 2 ^ 970"
    by simp_all
  have "fetched (trace (snd (main up dsk rate_limit fs)))
          = map (\<lambda>pkg. (author pkg, name pkg, version pkg)) (packages_to_update fs)"
    by (simp only: main_trace[OF dir small] fetched_events)
  then have "set (fetched (trace (snd (main up dsk rate_limit fs))))
          = (\<lambda>pkg. (author pkg, name pkg, version pkg)) ` set (packages_to_update fs)"
    by simp
  also have "\<dots> = {(a, n, v). needs_docs fs a n v}"
    unfolding set_packages_to_update by (rule ident_mk_pkg)
  finally show "set (fetched (trace (snd (main up dsk rate_limit fs)))) = {(a, n, v). needs_docs fs a n v}" .
next
  fix a n v
  assume no: "\<not> needs_docs fs a n v"
  have "[''packages'', a, n, v, ''docs.json''] \<notin> docs_path ` set (packages_to_update fs)"
    using docs_path_selected[of "[''packages'', a, n, v, ''docs.json'']" fs] no by auto
  then show "map_of (files (snd (main up dsk rate_limit fs))) [''packages'', a, n, v, ''docs.json'']
        = map_of fs [''packages'', a, n, v, ''docs.json'']"
    by (rule main_files_other)
qed

lemma example_needs_docs:
  "needs_docs example_mirror ''elm'' ''core'' ''1.0.5''"
  "\<not> needs_docs example_mirror ''elm'' ''core'' ''1.0.4''"
  by (simp_all add: needs_docs_def is_dir_def path_exists_def example_mirror_def)

theorem backfill_selection_witness:
  "needs_docs example_mirror ''elm'' ''core'' ''1.0.5'' \<and>
   \<not> needs_docs example_mirror ''elm'' ''core'' ''1.0.4'' \<and>
   is_dir example_mirror packages_dir \<and> (10000::int) < 2 ^ 1024 - 2 ^ 970 \<and>
   mk_pkg ''elm'' ''core'' ''1.0.5'' \<in> set (packages_to_update example_mirror) \<and>
   (''elm'', ''core'', ''1.0.5'')
     \<in> set (fetched (trace (snd (main example_upstream (\<lambda>_. Written) 10000 example_mirror)))) \<and>
   (''elm'', ''core'', ''1.0.4'')
     \<notin> set (fetched (trace (snd (main example_upstream (\<lambda>_. Written) 10000 example_mirror)))) \<and>
   map_of (files (snd (main example_upstream (\<lambda>_. Written) 10000 example_mirror)))
       [''packages'', ''elm'', ''core'', ''1.0.4'', ''docs.json'']
     = Some (File ''[]'')"
proof -
  note t = backfill_selection [of example_mirror example_upstream "\<lambda>_. Written" 10000]
  have 1: "mk_pkg ''elm'' ''core'' ''1.0.5'' \<in> set (packages_to_update example_mirror)"
    using t example_needs_docs(1) by blast
  have 2: "(''elm'', ''core'', ''1.0.5'')
     \<in> set (fetched (trace (snd (main example_upstream (\<lambda>_. Written) 10000 example_mirror))))"
    using t example_needs_docs(1) example_is_dir default_rate_limit by blast
  have 3: "(''elm'', ''core'', ''1.0.4'')
     \<notin> set (fetched (trace (snd (main example_upstream (\<lambda>_. Written) 10000 example_mirror))))"
    using t example_needs_docs(2) by blast
  have "map_of (files (snd (main example_upstream (\<lambda>_. Written) 10000 example_mirror)))
       [''packages'', ''elm'', ''core'', ''1.0.4'', ''docs.json'']
     = map_of example_mirror [''packages'', ''elm'', ''core'', ''1.0.4'', ''docs.json'']"
    using t example_needs_docs(2) by blast
  then have 4: "map_of (files (snd (main example_upstream (\<lambda>_. Written) 10000 example_mirror)))
       [''packages'', ''elm'', ''core'', ''1.0.4'', ''docs.json''] = Some (File ''[]'')"
    by (simp add: example_mirror_def)
  show ?thesis using example_needs_docs example_is_dir default_rate_limit 1 2 3 4 by simp
qed

text \<open>
  Claim C9. After a run, every path other than the \<open>docs.json\<close> of a selected version
  holds what it held before (or is still absent): so \<open>registry.json\<close>, \<open>all-packages\<close>
  and every file that is not named \<open>docs.json\<close>, such as a manifest \<open>elm.json\<close>, an
  archive \<open>package.zip\<close> or an integrity record \<open>hash.json\<close>.
\<close>

theorem backfill_frame:
  "(\<forall>p. p \<notin> docs_path ` set (packages_to_update fs) \<longrightarrow>
        map_of (files (snd (main up dsk rate_limit fs))) p = map_of fs p) \<and>
   map_of (files (snd (main up dsk rate_limit fs))) [''registry.json'']
     = map_of fs [''registry.json''] \<and>
   map_of (files (snd (main up dsk rate_limit fs))) [''all-packages'']
     = map_of fs [''all-packages''] \<and>
   (\<forall>d f. f \<noteq> ''docs.json'' \<longrightarrow>
        map_of (files (snd (main up dsk rate_limit fs))) (d @ [f]) = map_of fs (d @ [f]))"
proof (intro conjI allI impI)
  fix p assume "p \<notin> docs_path ` set (packages_to_update fs)"
  then show "map_of (files (snd (main up dsk rate_limit fs))) p = map_of fs p"
    by (rule main_files_other)
next
  have "[''registry.json''] \<notin> docs_path ` set (packages_to_update fs)"
    using docs_path_selected[of "[''registry.json'']" fs] by auto
  then show "map_of (files (snd (main up dsk rate_limit fs))) [''registry.json'']
     = map_of fs [''registry.json'']"
    by (rule main_files_other)
next
  have "[''all-packages''] \<notin> docs_path ` set (packages_to_update fs)"
    using docs_path_selected[of "[''all-packages'']" fs] by auto
  then show "map_of (files (snd (main up dsk rate_limit fs))) [''all-packages'']
     = map_of fs [''all-packages'']"
    by (rule main_files_other)
next
  fix d f assume f: "f \<noteq> ''docs.json''"
  have "d @ [f] \<notin> docs_path ` set (packages_to_update fs)"
  proof
    assume "d @ [f] \<in> docs_path ` set (packages_to_update fs)"
    then obtain a n v where "d @ [f] = [''packages'', a, n, v, ''docs.json'']"
      using docs_path_selected by blast
    then have "last (d @ [f]) = last [''packages'', a, n, v, ''docs.json'']" by (simp only:)
    with f show False by simp
  qed
  then show "map_of (files (snd (main up dsk rate_limit fs))) (d @ [f]) = map_of fs (d @ [f])"
    by (rule main_files_other)
qed

theorem backfill_frame_witness:
  "[''packages'', ''elm'', ''core'', ''1.0.5'', ''elm.json'']
      \<notin> docs_path ` set (packages_to_update example_mirror) \<and>
   ''elm.json'' \<noteq> ''docs.json'' \<and>
   map_of (files (snd (main example_upstream (\<lambda>_. Written) 10000 example_mirror)))
       [''packages'', ''elm'', ''core'', ''1.0.5'', ''elm.json''] = Some (File ''{}'') \<and>
   map_of (files (snd (main example_upstream (\<lambda>_. Written) 10000 example_mirror)))
       [''registry.json''] = Some (File ''{}'') \<and>
   map_of (files (snd (main example_upstream (\<lambda>_. Written) 10000 example_mirror)))
       [''packages'', ''elm'', ''json'', ''1.1.3'', ''docs.json''] = Some (File ''[1, 2]'')"
proof -
  note t = backfill_frame [of example_mirror example_upstream "\<lambda>_. Written" 10000]
  have 1: "[''packages'', ''elm'', ''core'', ''1.0.5'', ''elm.json'']
      \<notin> docs_path ` set (packages_to_update example_mirror)"
    by (simp add: example_packages_to_update mk_pkg_def)
  with t have "map_of (files (snd (main example_upstream (\<lambda>_. Written) 10000 example_mirror)))
       [''packages'', ''elm'', ''core'', ''1.0.5'', ''elm.json'']
       = map_of example_mirror [''packages'', ''elm'', ''core'', ''1.0.5'', ''elm.json'']"
    by blast
  then have 2: "map_of (files (snd (main example_upstream (\<lambda>_. Written) 10000 example_mirror)))
       [''packages'', ''elm'', ''core'', ''1.0.5'', ''elm.json''] = Some (File ''{}'')"
    by (simp add: example_mirror_def)
  from t have "map_of (files (snd (main example_upstream (\<lambda>_. Written) 10000 example_mirror)))
       [''registry.json''] = map_of example_mirror [''registry.json'']" by blast
  then have 3: "map_of (files (snd (main example_upstream (\<lambda>_. Written) 10000 example_mirror)))
       [''registry.json''] = Some (File ''{}'')"
    by (simp add: example_mirror_def)
  have 4: "map_of (files (snd (main example_upstream (\<lambda>_. Written) 10000 example_mirror)))
       [''packages'', ''elm'', ''json'', ''1.1.3'', ''docs.json''] = Some (File ''[1, 2]'')"
    by (simp add: main_run(1)[OF example_is_dir default_rate_limit]
          example_packages_to_update mk_pkg_def
          process_def fetch_docs_json_def example_upstream_def write_docs_def
          map_of_open_w map_of_json_dump Let_def)
  show ?thesis using 1 2 3 4 by simp
qed

lemma single_packages_to_update:
  "packages_to_update single_mirror = [mk_pkg ''elm'' ''core'' ''1.0.5'']"
  by (simp add: packages_to_update_def iterdir_def is_dir_def path_exists_def
        single_mirror_def packages_dir_def mk_pkg_def)

lemma single_is_dir: "is_dir single_mirror packages_dir"
  by (simp add: is_dir_def single_mirror_def packages_dir_def)

lemma single_run:
  "files (snd (main (\<lambda>_. Docs ''[1, 2]'') (\<lambda>_. WriteFailed 0) 10000 single_mirror))
     = single_mirror @ [([''packages'', ''elm'', ''core'', ''1.0.5'', ''docs.json''], File [])]"
  "fst (main (\<lambda>_. Docs ''[1, 2]'') (\<lambda>_. WriteFailed 0) 10000 single_mirror) = Return 1"
  unfolding main_run[OF single_is_dir default_rate_limit] single_packages_to_update
  by (simp_all add: mk_pkg_def process_def fetch_docs_json_def write_docs_def open_w_def
        json_dump_def Let_def single_mirror_def)

text \<open>
  Claim C5, as stated, fails for the backfill utility: \<open>docs.json\<close> is opened at its
  final path, so a write that fails after \<open>open\<close> leaves a truncated file there. Here the
  server answers \<open>[1, 2]\<close> and the write fails before any character reaches the file:
  after the run, \<open>docs.json\<close> is neither absent, as it was before, nor the document.
\<close>

theorem backfill_write_not_atomic_counterexample:
  "\<not> (map_of (files (snd (main (\<lambda>_. Docs ''[1, 2]'') (\<lambda>_. WriteFailed 0) 10000 single_mirror)))
          [''packages'', ''elm'', ''core'', ''1.0.5'', ''docs.json'']
        = map_of single_mirror [''packages'', ''elm'', ''core'', ''1.0.5'', ''docs.json''] \<or>
       map_of (files (snd (main (\<lambda>_. Docs ''[1, 2]'') (\<lambda>_. WriteFailed 0) 10000 single_mirror)))
          [''packages'', ''elm'', ''core'', ''1.0.5'', ''docs.json'']
        = Some (File ''[1, 2]''))"
  unfolding single_run by (simp add: single_mirror_def)

text \<open>
  Claim C5, amended. The backfill utility writes \<open>docs.json\<close> in place: opening creates
  or truncates the file at its final path; no other path is touched, so there is no
  temporary file and no rename; when the write completes the path holds the document,
  when it fails part-way the path holds the part written, and when \<open>open\<close> fails the
  path is as before.
\<close>

theorem write_docs_in_place:
  "map_of (open_w fs p) p = Some (File []) \<and>
   (\<forall>q. q \<noteq> p \<longrightarrow> map_of (open_w fs p) q = map_of fs q \<and>
                  map_of (fst (write_docs dsk fs p docs)) q = map_of fs q) \<and>
   map_of (fst (write_docs dsk fs p docs)) p =
     (case dsk p of
        OpenFailed \<Rightarrow> map_of fs p
      | WriteFailed n \<Rightarrow> Some (File (take n docs))
      | Written \<Rightarrow> Some (File docs)) \<and>
   snd (write_docs dsk fs p docs) = (dsk p = Written)"
  by (simp add: map_of_open_w write_docs_other write_docs_at write_docs_ok)

theorem write_docs_in_place_witness:
  "[''registry.json''] \<noteq> [''packages'', ''elm'', ''core'', ''1.0.5'', ''docs.json''] \<and>
   map_of (fst (write_docs (\<lambda>_. WriteFailed 3) single_mirror
                  [''packages'', ''elm'', ''core'', ''1.0.5'', ''docs.json''] ''[1, 2]''))
       [''registry.json''] = None \<and>
   map_of (fst (write_docs (\<lambda>_. WriteFailed 3) single_mirror
                  [''packages'', ''elm'', ''core'', ''1.0.5'', ''docs.json''] ''[1, 2]''))
       [''packages'', ''elm'', ''core'', ''1.0.5'', ''docs.json''] = Some (File ''[1,'')"
  using write_docs_in_place [of single_mirror
      "[''packages'', ''elm'', ''core'', ''1.0.5'', ''docs.json'']" "\<lambda>_. WriteFailed 3" "''[1, 2]''"]
  by (simp add: single_mirror_def)

text \<open>
  A later run does not repair the truncated file: the version now has a \<open>docs.json\<close> and
  is no longer selected.
\<close>

lemma backfill_truncated_docs_not_retried:
  "packages_to_update
     (files (snd (main (\<lambda>_. Docs ''[1, 2]'') (\<lambda>_. WriteFailed 0) 10000 single_mirror))) = []"
  unfolding single_run
  by (simp add: packages_to_update_def iterdir_def is_dir_def path_exists_def
        single_mirror_def packages_dir_def)

section \<open>The availability rule of the mirror server\<close>

text \<open>
  Claim C2. A request that names an identity with no success record in the log is
  answered with 503, whatever the resource. A request for \<open>endpoint.json\<close> of an
  identity with a success record and a stored digest is answered with 200, the URL
  being the base URL followed by the canonical archive path, and the hash the stored
  digest.
\<close>

theorem serve_availability:
  "(\<not> has_success reg ident \<longrightarrow>
      serve base_url reg st ident res = \<lparr>code = 503, body = NoBody\<rparr>) \<and>
   (has_success reg ident \<and> st ident Integrity = Some digest \<longrightarrow>
      serve base_url reg st ident EndpointJson =
        \<lparr>code = 200, body = Endpoint (base_url @ canonical_path ident) digest\<rparr>)"
  by (simp add: serve_def)

theorem serve_availability_witness:
  "\<not> has_success
       [\<lparr>identity = (''elm'', ''core'', ''1.0.5''), status = Success, error_detail = None\<rparr>,
        \<lparr>identity = (''elm'', ''html'', ''1.0.0''), status = Failed,
          error_detail = Some ''HTTP 404''\<rparr>]
       (''elm'', ''html'', ''1.0.0'') \<and>
   serve ''http://localhost:18765''
       [\<lparr>identity = (''elm'', ''core'', ''1.0.5''), status = Success, error_detail = None\<rparr>,
        \<lparr>identity = (''elm'', ''html'', ''1.0.0''), status = Failed,
          error_detail = Some ''HTTP 404''\<rparr>]
       (\<lambda>ident a. if ident = (''elm'', ''core'', ''1.0.5'') \<and> a = Integrity
                  then Some ''da39a3ee'' else None)
       (''elm'', ''html'', ''1.0.0'') EndpointJson
     = \<lparr>code = 503, body = NoBody\<rparr> \<and>
   has_success
       [\<lparr>identity = (''elm'', ''core'', ''1.0.5''), status = Success, error_detail = None\<rparr>,
        \<lparr>identity = (''elm'', ''html'', ''1.0.0''), status = Failed,
          error_detail = Some ''HTTP 404''\<rparr>]
       (''elm'', ''core'', ''1.0.5'') \<and>
   serve ''http://localhost:18765''
       [\<lparr>identity = (''elm'', ''core'', ''1.0.5''), status = Success, error_detail = None\<rparr>,
        \<lparr>identity = (''elm'', ''html'', ''1.0.0''), status = Failed,
          error_detail = Some ''HTTP 404''\<rparr>]
       (\<lambda>ident a. if ident = (''elm'', ''core'', ''1.0.5'') \<and> a = Integrity
                  then Some ''da39a3ee'' else None)
       (''elm'', ''core'', ''1.0.5'') EndpointJson
     = \<lparr>code = 200,
        body = Endpoint ''http://localhost:18765/packages/elm/core/1.0.5/package.zip''
                        ''da39a3ee''\<rparr>"
  using serve_availability
    [of "[\<lparr>identity = (''elm'', ''core'', ''1.0.5''), status = Success, error_detail = None\<rparr>,
          \<lparr>identity = (''elm'', ''html'', ''1.0.0''), status = Failed,
            error_detail = Some ''HTTP 404''\<rparr>]"
        "(''elm'', ''html'', ''1.0.0'')" "''http://localhost:18765''"
        "\<lambda>ident a. if ident = (''elm'', ''core'', ''1.0.5'') \<and> a = Integrity
                   then Some ''da39a3ee'' else None" EndpointJson "''da39a3ee''"]
    serve_availability
    [of "[\<lparr>identity = (''elm'', ''core'', ''1.0.5''), status = Success, error_detail = None\<rparr>,
          \<lparr>identity = (''elm'', ''html'', ''1.0.0''), status = Failed,
            error_detail = Some ''HTTP 404''\<rparr>]"
        "(''elm'', ''core'', ''1.0.5'')" "''http://localhost:18765''"
        "\<lambda>ident a. if ident = (''elm'', ''core'', ''1.0.5'') \<and> a = Integrity
                   then Some ''da39a3ee'' else None" EndpointJson "''da39a3ee''"]
  by (simp add: has_success_def canonical_path_def)

end
